theory Spec2Isabelle
  imports Main "HOL-Library.Word" "HOL-Library.Sublist" "HOL-Library.AList" "HOL-Library.Char_ord"
begin

section \<open>Secure Note: the pad servers and the expiry sweep\<close>

text \<open>
  The repository holds two Express servers over the same on-disk layout: \<^verbatim>\<open>server.js\<close>
  (SHA-256 digests, pad id in the URL) and \<^verbatim>\<open>server-old.js\<close> (bcrypt digests, an
  explicit create-pad/login pair). Both keep one JSON file per pad under \<^verbatim>\<open>pads/\<close> and
  one directory of payloads per pad under \<^verbatim>\<open>uploads/\<close>.

  Conventions of the model.
  \<^item> A JavaScript string is a \<^typ>\<open>string\<close>; \<^verbatim>\<open>s.length\<close> is \<^term>\<open>length s\<close>.
  \<^item> A request field that may be missing (\<^verbatim>\<open>undefined\<close>) is a \<^typ>\<open>string option\<close>.
  \<^item> A timestamp is the number of milliseconds since the epoch (\<^verbatim>\<open>Date.now()\<close>);
    \<^verbatim>\<open>toISOString\<close> and \<^verbatim>\<open>new Date(iso)\<close> are inverse to each other on it, so the
    stored ISO text is identified with that number.
  \<^item> Every read of the clock and every draw of a random id is an argument of the
    handler that performs it, in the order in which the handler performs them.
  \<^item> The digests of Node's \<^verbatim>\<open>crypto\<close> and of the \<^verbatim>\<open>bcrypt\<close> package are library code;
    they are the fields of a \<^verbatim>\<open>crypto\<close> record handed to every handler.
  \<^item> The file \<^verbatim>\<open>pads/<id>.json\<close> is the entry \<open>id\<close> of the association list
    \<open>pads\<close>; \<^verbatim>\<open>JSON.stringify\<close> followed by \<^verbatim>\<open>JSON.parse\<close> is the identity on
    the records written here. Writes to disk are taken to succeed.
  \<^item> \<^verbatim>\<open>console.log\<close> and \<^verbatim>\<open>console.error\<close> append to \<open>logs\<close>.
\<close>

subsection \<open>Data\<close>

type_synonym byte = "8 word"

record fileInfo =
  file_id :: string
  file_name :: string
  file_size :: nat
  uploadedAt :: int
  expiresAt :: int

text \<open>
  The pad object as either server writes it: \<^verbatim>\<open>server.js\<close> sets \<open>lastModified\<close>,
  \<^verbatim>\<open>server-old.js\<close> sets \<open>padId\<close> and \<open>updatedAt\<close> instead.
\<close>

record pad =
  padId :: "string option"
  content :: string
  files :: "fileInfo list"
  passwordHash :: string
  createdAt :: int
  lastModified :: "int option"
  updatedAt :: "int option"

datatype exn = ENOENT | EPERM | TypeError

datatype log_entry =
    RunningCleanup
  | CleanupComplete nat
  | ErrorDeletingFile string
  | CleanupError
  | RouteError string

record server =
  pads :: "(string \<times> pad) list"
  uploads :: "(string \<times> (string \<times> byte list) list) list"
  logs :: "log_entry list"

datatype jsval = JBool bool | JStr string | JFile fileInfo | JFiles "fileInfo list"

text \<open>
  What a handler sends: \<^verbatim>\<open>res.status(n).json(obj)\<close> (status 200 when none is set),
  \<^verbatim>\<open>res.download(dir/fileName, name)\<close>, or an error that multer hands to Express's
  error handler before the route runs.
\<close>

datatype response =
    Json nat "(string \<times> jsval) list"
  | Download string string string
  | ErrorHandler string

record crypto =
  sha256hex :: "string \<Rightarrow> string"
  bcrypt_hash :: "string \<Rightarrow> string \<Rightarrow> string"
  bcrypt_compare :: "string \<Rightarrow> string \<Rightarrow> bool"

subsection \<open>Storage\<close>

definition console_error :: "log_entry \<Rightarrow> server \<Rightarrow> server" where
  "console_error e st = st\<lparr>logs := logs st @ [e]\<rparr>"

definition readPad :: "server \<Rightarrow> string \<Rightarrow> exn + pad" where
  "readPad st pid = (case map_of (pads st) pid of None \<Rightarrow> Inl ENOENT | Some p \<Rightarrow> Inr p)"

definition writePad :: "server \<Rightarrow> string \<Rightarrow> pad \<Rightarrow> server" where
  "writePad st pid p = st\<lparr>pads := AList.update pid p (pads st)\<rparr>"

definition padExists :: "server \<Rightarrow> string \<Rightarrow> bool" where
  "padExists st pid = (case map_of (pads st) pid of None \<Rightarrow> False | Some p \<Rightarrow> True)"

subsection \<open>Credentials\<close>

text \<open>
  \<^verbatim>\<open>server.js\<close>: \<^verbatim>\<open>crypto.createHash('sha256').update(password).digest('hex')\<close>;
  \<^verbatim>\<open>update\<close> throws a TypeError when the password is \<^verbatim>\<open>undefined\<close>.
\<close>

definition hashPassword :: "crypto \<Rightarrow> string option \<Rightarrow> exn + string" where
  "hashPassword L password =
     (case password of None \<Rightarrow> Inl TypeError | Some s \<Rightarrow> Inr (sha256hex L s))"

text \<open>
  \<^verbatim>\<open>server-old.js\<close>: \<^verbatim>\<open>bcrypt.hash(password, SALT_ROUNDS)\<close> with the salt that the
  package draws, and \<^verbatim>\<open>bcrypt.compare(password, hash)\<close>, which rejects when the
  password is missing.
\<close>

definition hashPassword_old :: "crypto \<Rightarrow> string \<Rightarrow> string \<Rightarrow> string" where
  "hashPassword_old L salt password = bcrypt_hash L salt password"

definition verifyPassword :: "crypto \<Rightarrow> string option \<Rightarrow> string \<Rightarrow> exn + bool" where
  "verifyPassword L password h =
     (case password of None \<Rightarrow> Inl TypeError | Some s \<Rightarrow> Inr (bcrypt_compare L s h))"

subsection \<open>\<^verbatim>\<open>server.js\<close>: pad routes\<close>

text \<open>\<^verbatim>\<open>POST /api/pad/:padId/create\<close>; \<open>t1\<close>, \<open>t2\<close> are its two clock reads.\<close>

definition create_route ::
  "crypto \<Rightarrow> server \<Rightarrow> string \<Rightarrow> string option \<Rightarrow> int \<Rightarrow> int \<Rightarrow> response \<times> server" where
  "create_route L st pid password t1 t2 =
     (case password of
        None \<Rightarrow> (Json 400 [(''error'', JStr ''Password must be at least 4 characters'')], st)
      | Some s \<Rightarrow>
          if s = [] \<or> length s < 4
          then (Json 400 [(''error'', JStr ''Password must be at least 4 characters'')], st)
          else
            (case hashPassword L password of
               Inl e \<Rightarrow> (Json 500 [(''error'', JStr ''Failed to create pad'')],
                          console_error (RouteError ''Create error'') st)
             | Inr h \<Rightarrow>
                 let padData = \<lparr>padId = None, content = [], files = [], passwordHash = h,
                                createdAt = t1, lastModified = Some t2, updatedAt = None\<rparr>
                 in (Json 200 [(''success'', JBool True)], writePad st pid padData)))"

text \<open>\<^verbatim>\<open>POST /api/pad/:padId/verify\<close>; its \<^verbatim>\<open>catch\<close> does not log.\<close>

definition verify_route :: "crypto \<Rightarrow> server \<Rightarrow> string \<Rightarrow> string option \<Rightarrow> response" where
  "verify_route L st pid password =
     (case readPad st pid of
        Inl e \<Rightarrow> Json 404 [(''success'', JBool False), (''error'', JStr ''Pad not found'')]
      | Inr data \<Rightarrow>
          (case hashPassword L password of
             Inl e \<Rightarrow> Json 404 [(''success'', JBool False), (''error'', JStr ''Pad not found'')]
           | Inr h \<Rightarrow> Json 200 [(''success'', JBool (passwordHash data = h))]))"

text \<open>\<^verbatim>\<open>POST /api/pad/:padId/get\<close>.\<close>

definition get_route :: "crypto \<Rightarrow> server \<Rightarrow> string \<Rightarrow> string option \<Rightarrow> response" where
  "get_route L st pid password =
     (case readPad st pid of
        Inl e \<Rightarrow> Json 404 [(''error'', JStr ''Pad not found'')]
      | Inr data \<Rightarrow>
          (case hashPassword L password of
             Inl e \<Rightarrow> Json 404 [(''error'', JStr ''Pad not found'')]
           | Inr h \<Rightarrow>
               if passwordHash data \<noteq> h
               then Json 401 [(''error'', JStr ''Incorrect password'')]
               else Json 200 [(''content'', JStr (content data)), (''files'', JFiles (files data))]))"

text \<open>\<^verbatim>\<open>POST /api/pad/:padId/save\<close>; \<open>t\<close> is its clock read.\<close>

definition save_route ::
  "crypto \<Rightarrow> server \<Rightarrow> string \<Rightarrow> string option \<Rightarrow> string \<Rightarrow> int \<Rightarrow> response \<times> server" where
  "save_route L st pid password newContent t =
     (case readPad st pid of
        Inl e \<Rightarrow> (Json 500 [(''error'', JStr ''Failed to save'')],
                   console_error (RouteError ''Save error'') st)
      | Inr data \<Rightarrow>
          (case hashPassword L password of
             Inl e \<Rightarrow> (Json 500 [(''error'', JStr ''Failed to save'')],
                        console_error (RouteError ''Save error'') st)
           | Inr h \<Rightarrow>
               if passwordHash data \<noteq> h
               then (Json 401 [(''error'', JStr ''Incorrect password'')], st)
               else (Json 200 [(''success'', JBool True)],
                     writePad st pid (data\<lparr>content := newContent, lastModified := Some t\<rparr>))))"

subsection \<open>\<^verbatim>\<open>server-old.js\<close>: create, login, save\<close>

text \<open>\<^verbatim>\<open>/^[a-zA-Z0-9_-]{3,50}$/.test(urlName)\<close>.\<close>

definition url_char :: "char \<Rightarrow> bool" where
  "url_char c =
     ((CHR ''a'' \<le> c \<and> c \<le> CHR ''z'') \<or> (CHR ''A'' \<le> c \<and> c \<le> CHR ''Z'') \<or>
      (CHR ''0'' \<le> c \<and> c \<le> CHR ''9'') \<or> c = CHR ''_'' \<or> c = CHR ''-'')"

definition isValidCustomUrl :: "string \<Rightarrow> bool" where
  "isValidCustomUrl urlName =
     (3 \<le> length urlName \<and> length urlName \<le> 50 \<and> list_all url_char urlName)"

text \<open>
  \<^verbatim>\<open>POST /api/create-pad\<close>; \<open>salt\<close> is the salt bcrypt draws, \<open>t1\<close>, \<open>t2\<close> the two
  clock reads.
\<close>

definition create_pad_old ::
  "crypto \<Rightarrow> server \<Rightarrow> string option \<Rightarrow> string option \<Rightarrow> string \<Rightarrow> int \<Rightarrow> int
     \<Rightarrow> response \<times> server" where
  "create_pad_old L st urlName password salt t1 t2 =
     (let badUrl = (Json 400 [(''error'', JStr
            ''Invalid URL name. Use 3-50 characters (letters, numbers, hyphens, underscores only)'')], st);
          badPassword = (Json 400 [(''error'', JStr ''Password must be at least 4 characters'')], st)
      in case urlName of
           None \<Rightarrow> badUrl
         | Some u \<Rightarrow>
             if u = [] \<or> \<not> isValidCustomUrl u then badUrl
             else
               (case password of
                  None \<Rightarrow> badPassword
                | Some s \<Rightarrow>
                    if s = [] \<or> length s < 4 then badPassword
                    else if padExists st u
                    then (Json 409 [(''error'', JStr ''This URL name is already taken.'')], st)
                    else
                      let padData = \<lparr>padId = Some u, content = [], files = [],
                                     passwordHash = hashPassword_old L salt s,
                                     createdAt = t1, lastModified = None, updatedAt = Some t2\<rparr>
                      in (Json 200 [(''success'', JBool True), (''padId'', JStr u)],
                          writePad st u padData)))"

text \<open>\<^verbatim>\<open>POST /api/login\<close>.\<close>

definition login_old ::
  "crypto \<Rightarrow> server \<Rightarrow> string option \<Rightarrow> string option \<Rightarrow> response \<times> server" where
  "login_old L st urlName password =
     (let required = (Json 400 [(''error'', JStr ''URL name and password are required'')], st);
          denied = Json 401 [(''error'', JStr ''Incorrect URL or password.'')]
      in case urlName of
           None \<Rightarrow> required
         | Some u \<Rightarrow>
             if u = [] \<or> password = None \<or> password = Some [] then required
             else if \<not> padExists st u then (denied, st)
             else
               (case readPad st u of
                  Inl e \<Rightarrow> (denied, console_error (RouteError ''Login error'') st)
                | Inr data \<Rightarrow>
                    (case verifyPassword L password (passwordHash data) of
                       Inl e \<Rightarrow> (denied, console_error (RouteError ''Login error'') st)
                     | Inr isValid \<Rightarrow>
                         if \<not> isValid then (denied, st)
                         else (Json 200 [(''success'', JBool True), (''padId'', JStr u)], st))))"

text \<open>\<^verbatim>\<open>POST /api/pad/:padId/save\<close> of \<^verbatim>\<open>server-old.js\<close>.\<close>

definition save_old ::
  "crypto \<Rightarrow> server \<Rightarrow> string \<Rightarrow> string option \<Rightarrow> string \<Rightarrow> int \<Rightarrow> response \<times> server" where
  "save_old L st pid password newContent t =
     (let failed = (Json 500 [(''error'', JStr ''Failed to save'')],
                    console_error (RouteError ''Save error'') st)
      in if \<not> padExists st pid then (Json 404 [(''error'', JStr ''Pad not found'')], st)
         else
           (case readPad st pid of
              Inl e \<Rightarrow> failed
            | Inr data \<Rightarrow>
                (case verifyPassword L password (passwordHash data) of
                   Inl e \<Rightarrow> failed
                 | Inr isValid \<Rightarrow>
                     if \<not> isValid
                     then (Json 401 [(''error'', JStr ''Incorrect password'')], st)
                     else (Json 200 [(''success'', JBool True)],
                           writePad st pid (data\<lparr>content := newContent, updatedAt := Some t\<rparr>)))))"

subsection \<open>Library functions used by the upload check\<close>

text \<open>
  \<^verbatim>\<open>path.extname\<close> of Node (POSIX flavour): one scan from the end of the path, which
  remembers the last dot of the last path component. The scan state is that of the
  library's loop; \<open>-1\<close> is "not seen yet".
\<close>

record scan =
  startDot :: int
  startPart :: nat
  end_ix :: int
  matchedSlash :: bool
  preDotState :: int

fun extname_scan :: "string \<Rightarrow> nat \<Rightarrow> scan \<Rightarrow> scan" where
  "extname_scan path 0 s = s"
| "extname_scan path (Suc i) s =
     (if path ! i = CHR ''/''
      then (if matchedSlash s then extname_scan path i s else s\<lparr>startPart := i + 1\<rparr>)
      else
        let s1 = (if end_ix s = -1 then s\<lparr>end_ix := int i + 1, matchedSlash := False\<rparr> else s);
            s2 = (if path ! i = CHR ''.''
                  then (if startDot s1 = -1 then s1\<lparr>startDot := int i\<rparr>
                        else if preDotState s1 = 1 then s1 else s1\<lparr>preDotState := 1\<rparr>)
                  else if startDot s1 = -1 then s1 else s1\<lparr>preDotState := -1\<rparr>)
        in extname_scan path i s2)"

definition extname :: "string \<Rightarrow> string" where
  "extname path =
     (let s = extname_scan path (length path)
                \<lparr>startDot = -1, startPart = 0, end_ix = -1, matchedSlash = True, preDotState = 0\<rparr>
      in if startDot s = -1 \<or> end_ix s = -1 \<or> preDotState s = 0 \<or>
            (preDotState s = 1 \<and> startDot s = end_ix s - 1 \<and> startDot s = int (startPart s) + 1)
         then []
         else take (nat (end_ix s - startDot s)) (drop (nat (startDot s)) path))"

text \<open>\<^verbatim>\<open>toLowerCase\<close>, on the ASCII letters.\<close>

definition lower_char :: "char \<Rightarrow> char" where
  "lower_char c =
     (if CHR ''A'' \<le> c \<and> c \<le> CHR ''Z'' then char_of (of_char c + (32 :: nat)) else c)"

definition toLowerCase :: "string \<Rightarrow> string" where
  "toLowerCase s = map lower_char s"

text \<open>\<^verbatim>\<open>buffer.toString('hex')\<close>: two lower-case hexadecimal digits for each byte.\<close>

definition hex_digit :: "nat \<Rightarrow> char" where
  "hex_digit n = ''0123456789abcdef'' ! n"

definition hex_byte :: "byte \<Rightarrow> string" where
  "hex_byte b = [hex_digit (unat b div 16), hex_digit (unat b mod 16)]"

definition toString_hex :: "byte list \<Rightarrow> string" where
  "toString_hex bs = concat (map hex_byte bs)"

definition startsWith :: "'a list \<Rightarrow> 'a list \<Rightarrow> bool" where
  "startsWith s p = prefix p s"

subsection \<open>Upload validation\<close>

definition MAX_FILE_SIZE :: nat where
  "MAX_FILE_SIZE = 10 * 1024 * 1024"

definition ALLOWED_TYPES :: "(string \<times> string list) list" where
  "ALLOWED_TYPES =
     [(''application/pdf'', [''.pdf'']),
      (''image/jpeg'', [''.jpg'', ''.jpeg'']),
      (''image/png'', [''.png'']),
      (''application/vnd.openxmlformats-officedocument.wordprocessingml.document'', [''.docx''])]"

text \<open>The uploaded part as multer's memory storage presents it; \<open>size\<close> is the buffer's length.\<close>

record upfile =
  originalname :: string
  buffer :: "byte list"

definition validateMime :: "byte list \<Rightarrow> string \<Rightarrow> bool" where
  "validateMime buf filename =
     (let ext = toLowerCase (extname filename)
      in if length buf < 8 then False
         else
           let header = toString_hex (take 8 buf)
           in if ext = ''.pdf'' then startsWith header ''25504446''
              else if ext = ''.jpg'' \<or> ext = ''.jpeg'' then startsWith header ''ffd8ff''
              else if ext = ''.png'' then startsWith header ''89504e47''
              else if ext = ''.docx''
                then startsWith header ''504b0304'' \<or> startsWith header ''504b0506''
              else False)"

definition fileFilter :: "upfile \<Rightarrow> bool" where
  "fileFilter file =
     (toLowerCase (extname (originalname file)) \<in> set (concat (map snd ALLOWED_TYPES)))"

text \<open>
  \<^verbatim>\<open>upload.single('file')\<close>: no file part leaves \<^verbatim>\<open>req.file\<close> undefined; a part that the
  filter refuses, or one longer than the limit, ends the request with an error before the
  route runs.
\<close>

definition multer_single :: "upfile option \<Rightarrow> string + upfile option" where
  "multer_single part =
     (case part of
        None \<Rightarrow> Inr None
      | Some file \<Rightarrow>
          if \<not> fileFilter file then Inl ''Invalid file type''
          else if MAX_FILE_SIZE < length (buffer file) then Inl ''File too large''
          else Inr (Some file))"

text \<open>The magic numbers the claims speak of, as bytes: PDF, JPEG, PNG and the two ZIP headers.\<close>

definition magic_signatures :: "byte list list" where
  "magic_signatures =
     [[0x25, 0x50, 0x44, 0x46], [0xff, 0xd8, 0xff], [0x89, 0x50, 0x4e, 0x47],
      [0x50, 0x4b, 0x03, 0x04], [0x50, 0x4b, 0x05, 0x06]]"

subsection \<open>Payload storage\<close>

definition mkdir_recursive :: "server \<Rightarrow> string \<Rightarrow> server" where
  "mkdir_recursive st pid =
     (case map_of (uploads st) pid of
        None \<Rightarrow> st\<lparr>uploads := uploads st @ [(pid, [])]\<rparr>
      | Some d \<Rightarrow> st)"

definition writeUpload :: "server \<Rightarrow> string \<Rightarrow> string \<Rightarrow> byte list \<Rightarrow> server" where
  "writeUpload st pid fileName bytes =
     (case map_of (uploads st) pid of
        None \<Rightarrow> st
      | Some d \<Rightarrow> st\<lparr>uploads := AList.update pid (AList.update fileName bytes d) (uploads st)\<rparr>)"

definition readdir :: "server \<Rightarrow> string \<Rightarrow> exn + string list" where
  "readdir st pid =
     (case map_of (uploads st) pid of None \<Rightarrow> Inl ENOENT | Some d \<Rightarrow> Inr (map fst d))"

subsection \<open>Upload and download\<close>

text \<open>
  \<^verbatim>\<open>POST /api/upload/:padId\<close> of \<^verbatim>\<open>server.js\<close>. \<open>fileId\<close> is the id drawn by
  \<^verbatim>\<open>generateId\<close>; \<open>t1\<close> is the clock read by \<^verbatim>\<open>new Date()\<close> for \<open>uploadedAt\<close>, \<open>t2\<close>
  the one read next by \<^verbatim>\<open>Date.now()\<close> for \<open>expiresAt\<close>.
\<close>

definition upload_route ::
  "crypto \<Rightarrow> server \<Rightarrow> string \<Rightarrow> string option \<Rightarrow> upfile option \<Rightarrow> string \<Rightarrow> int \<Rightarrow> int
     \<Rightarrow> response \<times> server" where
  "upload_route L st pid password part fileId t1 t2 =
     (let failed = (Json 500 [(''error'', JStr ''Upload failed'')],
                    console_error (RouteError ''Upload error'') st)
      in case multer_single part of
           Inl msg \<Rightarrow> (ErrorHandler msg, st)
         | Inr None \<Rightarrow> (Json 400 [(''error'', JStr ''No file provided'')], st)
         | Inr (Some file) \<Rightarrow>
             (case readPad st pid of
                Inl e \<Rightarrow> failed
              | Inr padData \<Rightarrow>
                  (case hashPassword L password of
                     Inl e \<Rightarrow> failed
                   | Inr h \<Rightarrow>
                       if passwordHash padData \<noteq> h
                       then (Json 401 [(''error'', JStr ''Incorrect password'')], st)
                       else if \<not> validateMime (buffer file) (originalname file)
                       then (Json 400 [(''error'', JStr ''Invalid or corrupted file'')], st)
                       else
                         let ext = extname (originalname file);
                             st1 = writeUpload (mkdir_recursive st pid) pid (fileId @ ext)
                                     (buffer file);
                             info = \<lparr>file_id = fileId, file_name = originalname file,
                                     file_size = length (buffer file),
                                     uploadedAt = t1, expiresAt = t2 + 24 * 60 * 60 * 1000\<rparr>
                         in (Json 200 [(''success'', JBool True), (''file'', JFile info)],
                             writePad st1 pid (padData\<lparr>files := files padData @ [info]\<rparr>)))))"

text \<open>The same route of \<^verbatim>\<open>server-old.js\<close>; \<open>t3\<close> is its third clock read, for \<open>updatedAt\<close>.\<close>

definition upload_old ::
  "crypto \<Rightarrow> server \<Rightarrow> string \<Rightarrow> string option \<Rightarrow> upfile option \<Rightarrow> string \<Rightarrow> int \<Rightarrow> int \<Rightarrow> int
     \<Rightarrow> response \<times> server" where
  "upload_old L st pid password part fileId t1 t2 t3 =
     (let failed = (Json 500 [(''error'', JStr ''Upload failed'')],
                    console_error (RouteError ''Upload error'') st)
      in case multer_single part of
           Inl msg \<Rightarrow> (ErrorHandler msg, st)
         | Inr None \<Rightarrow> (Json 400 [(''error'', JStr ''No file provided'')], st)
         | Inr (Some file) \<Rightarrow>
             if \<not> padExists st pid then (Json 404 [(''error'', JStr ''Pad not found'')], st)
             else
               (case readPad st pid of
                  Inl e \<Rightarrow> failed
                | Inr padData \<Rightarrow>
                    (case verifyPassword L password (passwordHash padData) of
                       Inl e \<Rightarrow> failed
                     | Inr isValid \<Rightarrow>
                         if \<not> isValid
                         then (Json 401 [(''error'', JStr ''Incorrect password'')], st)
                         else if \<not> validateMime (buffer file) (originalname file)
                         then (Json 400 [(''error'', JStr ''Invalid or corrupted file'')], st)
                         else
                           let ext = extname (originalname file);
                               st1 = writeUpload (mkdir_recursive st pid) pid (fileId @ ext)
                                       (buffer file);
                               info = \<lparr>file_id = fileId, file_name = originalname file,
                                       file_size = length (buffer file),
                                       uploadedAt = t1, expiresAt = t2 + 24 * 60 * 60 * 1000\<rparr>
                           in (Json 200 [(''success'', JBool True), (''file'', JFile info)],
                               writePad st1 pid
                                 (padData\<lparr>files := files padData @ [info],
                                           updatedAt := Some t3\<rparr>)))))"

text \<open>
  \<^verbatim>\<open>POST /files/:padId/:fileId\<close> of \<^verbatim>\<open>server.js\<close>; \<open>now\<close> is the clock read of the
  expiry check.
\<close>

definition download_route ::
  "crypto \<Rightarrow> server \<Rightarrow> string \<Rightarrow> string \<Rightarrow> string option \<Rightarrow> int \<Rightarrow> response \<times> server" where
  "download_route L st pid fileId password now =
     (let failed = (Json 500 [(''error'', JStr ''Download failed'')],
                    console_error (RouteError ''Download error'') st)
      in case readPad st pid of
           Inl e \<Rightarrow> failed
         | Inr padData \<Rightarrow>
             (case hashPassword L password of
                Inl e \<Rightarrow> failed
              | Inr h \<Rightarrow>
                  if passwordHash padData \<noteq> h
                  then (Json 401 [(''error'', JStr ''Unauthorized'')], st)
                  else
                    (case find (\<lambda>f. file_id f = fileId) (files padData) of
                       None \<Rightarrow> (Json 404 [(''error'', JStr ''File not found'')], st)
                     | Some info \<Rightarrow>
                         if expiresAt info < now
                         then (Json 410 [(''error'', JStr ''File expired'')], st)
                         else
                           (case readdir st pid of
                              Inl e \<Rightarrow> failed
                            | Inr names \<Rightarrow>
                                (case find (\<lambda>f. startsWith f fileId) names of
                                   None \<Rightarrow>
                                     (Json 404 [(''error'', JStr ''File not found on disk'')], st)
                                 | Some fileName \<Rightarrow>
                                     (Download pid fileName (file_name info), st))))))"

text \<open>The same route of \<^verbatim>\<open>server-old.js\<close>.\<close>

definition download_old ::
  "crypto \<Rightarrow> server \<Rightarrow> string \<Rightarrow> string \<Rightarrow> string option \<Rightarrow> int \<Rightarrow> response \<times> server" where
  "download_old L st pid fileId password now =
     (let failed = (Json 500 [(''error'', JStr ''Download failed'')],
                    console_error (RouteError ''Download error'') st)
      in if \<not> padExists st pid then (Json 404 [(''error'', JStr ''Pad not found'')], st)
         else
           (case readPad st pid of
              Inl e \<Rightarrow> failed
            | Inr padData \<Rightarrow>
                (case verifyPassword L password (passwordHash padData) of
                   Inl e \<Rightarrow> failed
                 | Inr isValid \<Rightarrow>
                     if \<not> isValid
                     then (Json 401 [(''error'', JStr ''Unauthorized'')], st)
                     else
                       (case find (\<lambda>f. file_id f = fileId) (files padData) of
                          None \<Rightarrow> (Json 404 [(''error'', JStr ''File not found'')], st)
                        | Some info \<Rightarrow>
                            if expiresAt info < now
                            then (Json 410 [(''error'', JStr ''File expired'')], st)
                            else
                              (case readdir st pid of
                                 Inl e \<Rightarrow> failed
                               | Inr names \<Rightarrow>
                                   (case find (\<lambda>f. startsWith f fileId) names of
                                      None \<Rightarrow>
                                        (Json 404 [(''error'', JStr ''File not found on disk'')], st)
                                    | Some fileName \<Rightarrow>
                                        (Download pid fileName (file_name info), st)))))))"

subsection \<open>The expiry sweep of \<^verbatim>\<open>server.js\<close>\<close>

text \<open>
  A statement runs on a state and either completes or throws; what it did before
  throwing stays done. \<open>for_of\<close> is the \<^verbatim>\<open>for (const x of xs)\<close> loop, which a throw in its
  body leaves at once; \<open>try_catch\<close> is \<^verbatim>\<open>try { ... } catch (err) { ... }\<close>.
\<close>

type_synonym 's stmt = "'s \<Rightarrow> exn option \<times> 's"

fun for_of :: "'a list \<Rightarrow> ('a \<Rightarrow> 's stmt) \<Rightarrow> 's stmt" where
  "for_of [] body s = (None, s)"
| "for_of (x # xs) body s =
     (case body x s of
        (Some e, s') \<Rightarrow> (Some e, s')
      | (None, s') \<Rightarrow> for_of xs body s')"

definition try_catch :: "'s stmt \<Rightarrow> (exn \<Rightarrow> 's stmt) \<Rightarrow> 's stmt" where
  "try_catch body handler s =
     (case body s of
        (Some e, s') \<Rightarrow> handler e s'
      | (None, s') \<Rightarrow> (None, s'))"

text \<open>
  What the sweep takes from its environment: the clock read while a pad is processed,
  and whether the file system lets a payload be unlinked.
\<close>

record sweep_env =
  now_of :: "string \<Rightarrow> int"
  unlink_ok :: "string \<Rightarrow> string \<Rightarrow> bool"

definition unlink :: "sweep_env \<Rightarrow> server \<Rightarrow> string \<Rightarrow> string \<Rightarrow> exn + server" where
  "unlink env st pid fileName =
     (case map_of (uploads st) pid of
        None \<Rightarrow> Inl ENOENT
      | Some d \<Rightarrow>
          if map_of d fileName = None then Inl ENOENT
          else if \<not> unlink_ok env pid fileName then Inl EPERM
          else Inr (st\<lparr>uploads := AList.update pid (AList.delete fileName d) (uploads st)\<rparr>))"

text \<open>The body of the inner \<^verbatim>\<open>try\<close>: the state is the server together with \<^verbatim>\<open>cleaned\<close>.\<close>

definition delete_payload :: "sweep_env \<Rightarrow> string \<Rightarrow> fileInfo \<Rightarrow> (server \<times> nat) stmt" where
  "delete_payload env pid file s =
     (case s of (st, cleaned) \<Rightarrow>
        (case readdir st pid of
           Inl e \<Rightarrow> (Some e, s)
         | Inr names \<Rightarrow>
             (case find (\<lambda>f. startsWith f (file_id file)) names of
                None \<Rightarrow> (None, s)
              | Some fileName \<Rightarrow>
                  (case unlink env st pid fileName of
                     Inl e \<Rightarrow> (Some e, s)
                   | Inr st' \<Rightarrow> (None, (st', cleaned + 1))))))"

definition log_delete_error :: "fileInfo \<Rightarrow> exn \<Rightarrow> (server \<times> nat) stmt" where
  "log_delete_error file err s =
     (case s of (st, cleaned) \<Rightarrow>
        (None, (console_error (ErrorDeletingFile (file_id file)) st, cleaned)))"

text \<open>The body of the loop over the pad files.\<close>

definition cleanup_pad :: "sweep_env \<Rightarrow> string \<Rightarrow> (server \<times> nat) stmt" where
  "cleanup_pad env padFile s =
     (case readPad (fst s) padFile of
        Inl e \<Rightarrow> (Some e, s)
      | Inr padData \<Rightarrow>
          let now = now_of env padFile;
              expired = filter (\<lambda>f. expiresAt f < now) (files padData)
          in case for_of expired
                    (\<lambda>file. try_catch (delete_payload env padFile file) (log_delete_error file)) s of
               (Some e, s') \<Rightarrow> (Some e, s')
             | (None, (st', cleaned')) \<Rightarrow>
                 (None,
                  (writePad st' padFile
                     (padData\<lparr>files := filter (\<lambda>f. expiresAt f \<ge> now) (files padData)\<rparr>),
                   cleaned')))"

text \<open>The outer \<^verbatim>\<open>try\<close> block, and \<^verbatim>\<open>cleanupExpired\<close> with its \<^verbatim>\<open>catch\<close>.\<close>

definition cleanup_body :: "sweep_env \<Rightarrow> server \<Rightarrow> exn option \<times> (server \<times> nat)" where
  "cleanup_body env st =
     (let st0 = console_error RunningCleanup st
      in for_of (map fst (pads st0)) (cleanup_pad env) (st0, 0))"

definition cleanupExpired :: "sweep_env \<Rightarrow> server \<Rightarrow> server" where
  "cleanupExpired env st =
     (case cleanup_body env st of
        (Some e, (st', cleaned)) \<Rightarrow> console_error CleanupError st'
      | (None, (st', cleaned)) \<Rightarrow> console_error (CleanupComplete cleaned) st')"

text \<open>
  The two answers by which an upload is refused as an invalid file: the route's own
  400, and the filter's error for an extension outside the allowed list.
\<close>

definition invalid_file_response :: "response \<Rightarrow> bool" where
  "invalid_file_response r =
     (r = Json 400 [(''error'', JStr ''Invalid or corrupted file'')] \<or>
      r = ErrorHandler ''Invalid file type'')"

definition status_of :: "response \<Rightarrow> nat" where
  "status_of r = (case r of Json n b \<Rightarrow> n | Download d f n \<Rightarrow> 200 | ErrorHandler m \<Rightarrow> 500)"

subsection \<open>A concrete library for evaluating the handlers\<close>

text \<open>
  The theorems below hold for every \<open>crypto\<close>. To run a handler on a concrete request
  the digests are replaced by transparent stand-ins: the SHA-256 stand-in tags its
  input, the bcrypt stand-in joins salt and password and compares by recomputing.
\<close>

definition demo_crypto :: crypto where
  "demo_crypto =
     \<lparr>sha256hex = (\<lambda>s. ''sha256:'' @ s),
      bcrypt_hash = (\<lambda>salt s. salt @ ''$'' @ s),
      bcrypt_compare = (\<lambda>s h. h = takeWhile (\<lambda>c. c \<noteq> CHR ''$'') h @ ''$'' @ s)\<rparr>"

definition demo_pad :: pad where
  "demo_pad =
     \<lparr>padId = None, content = ''hello world'', files = [],
      passwordHash = ''sha256:abcd'', createdAt = 1000, lastModified = Some 2000,
      updatedAt = None\<rparr>"

definition demo_pad_old :: pad where
  "demo_pad_old =
     \<lparr>padId = Some ''demo'', content = ''hello world'', files = [],
      passwordHash = ''salt$abcd'', createdAt = 1000, lastModified = None,
      updatedAt = Some 2000\<rparr>"

definition demo_server :: server where
  "demo_server = \<lparr>pads = [(''demo'', demo_pad)], uploads = [], logs = []\<rparr>"

definition demo_server_old :: server where
  "demo_server_old = \<lparr>pads = [(''demo'', demo_pad_old)], uploads = [], logs = []\<rparr>"

definition empty_server :: server where
  "empty_server = \<lparr>pads = [], uploads = [], logs = []\<rparr>"

text \<open>
  A pad with two attachments, one past its expiry at time \<open>90000000\<close> and one not, and
  their payloads; a pad whose expired attachment has no payload directory; and a pad
  whose expired attachment has a payload that the file system refuses to unlink.
\<close>

definition png_bytes :: "byte list" where
  "png_bytes = [0x89, 0x50, 0x4e, 0x47, 0x0d, 0x0a, 0x1a, 0x0a]"

definition pdf_bytes :: "byte list" where
  "pdf_bytes = [0x25, 0x50, 0x44, 0x46, 0x2d, 0x31, 0x2e, 0x34]"

definition text_bytes :: "byte list" where
  "text_bytes = [0x68, 0x65, 0x6c, 0x6c, 0x6f, 0x20, 0x77, 0x6f, 0x72, 0x6c, 0x64, 0x21]"

definition demo_file_old :: fileInfo where
  "demo_file_old =
     \<lparr>file_id = ''aa11'', file_name = ''old.png'', file_size = 8,
      uploadedAt = 0, expiresAt = 86400000\<rparr>"

definition demo_file_live :: fileInfo where
  "demo_file_live =
     \<lparr>file_id = ''bb22'', file_name = ''new.pdf'', file_size = 8,
      uploadedAt = 50000000, expiresAt = 136400000\<rparr>"

definition demo_file_lost :: fileInfo where
  "demo_file_lost =
     \<lparr>file_id = ''cc33'', file_name = ''lost.png'', file_size = 8,
      uploadedAt = 0, expiresAt = 86400000\<rparr>"

definition demo_file_locked :: fileInfo where
  "demo_file_locked =
     \<lparr>file_id = ''ee55'', file_name = ''locked.png'', file_size = 8,
      uploadedAt = 0, expiresAt = 86400000\<rparr>"

definition demo_files_server :: server where
  "demo_files_server =
     \<lparr>pads = [(''lost'', demo_pad\<lparr>files := [demo_file_lost]\<rparr>),
              (''locked'', demo_pad\<lparr>files := [demo_file_locked]\<rparr>),
              (''demo'', demo_pad\<lparr>files := [demo_file_old, demo_file_live]\<rparr>)],
      uploads = [(''locked'', [(''ee55.png'', png_bytes)]),
                 (''demo'', [(''aa11.png'', png_bytes), (''bb22.pdf'', pdf_bytes)])],
      logs = []\<rparr>"

definition demo_files_server_old :: server where
  "demo_files_server_old =
     \<lparr>pads = [(''demo'', demo_pad_old\<lparr>files := [demo_file_old, demo_file_live]\<rparr>)],
      uploads = [(''demo'', [(''aa11.png'', png_bytes), (''bb22.pdf'', pdf_bytes)])],
      logs = []\<rparr>"

text \<open>
  A pad whose expired attachment has a payload directory from which the payload is
  already gone, next to the pad with two attachments.
\<close>

definition demo_file_gone :: fileInfo where
  "demo_file_gone =
     \<lparr>file_id = ''ff66'', file_name = ''gone.png'', file_size = 8,
      uploadedAt = 0, expiresAt = 86400000\<rparr>"

definition demo_missing_server :: server where
  "demo_missing_server =
     \<lparr>pads = [(''gone'', demo_pad\<lparr>files := [demo_file_gone]\<rparr>),
              (''demo'', demo_pad\<lparr>files := [demo_file_old, demo_file_live]\<rparr>)],
      uploads = [(''gone'', []),
                 (''demo'', [(''aa11.png'', png_bytes), (''bb22.pdf'', pdf_bytes)])],
      logs = []\<rparr>"

definition demo_env :: sweep_env where
  "demo_env =
     \<lparr>now_of = (\<lambda>padFile. 90000000),
      unlink_ok = (\<lambda>pid fileName. fileName \<noteq> ''ee55.png'')\<rparr>"

section \<open>Properties\<close>

subsection \<open>Storage facts\<close>

lemma readPad_Inr_iff: "readPad st pid = Inr p \<longleftrightarrow> map_of (pads st) pid = Some p"
  by (simp add: readPad_def split: option.splits)

lemma padExists_iff: "padExists st pid \<longleftrightarrow> (\<exists>p. map_of (pads st) pid = Some p)"
  by (simp add: padExists_def split: option.splits)

lemma map_of_writePad: "map_of (pads (writePad st pid p)) pid = Some p"
  by (simp add: writePad_def update_conv')

subsection \<open>Creating a pad needs a secret of four characters\<close>

text \<open>
  Claim C10. A create request whose password is absent or shorter than four characters
  is answered with status 400 and writes nothing: \<^verbatim>\<open>server.js\<close> sends the password
  message and returns the store as it was; \<^verbatim>\<open>server-old.js\<close> sends status 400 (the URL
  message when the URL name is bad as well, the password message otherwise) and
  returns the store as it was.
\<close>

theorem create_rejects_short_password:
  assumes "password = None \<or> (\<exists>s. password = Some s \<and> length s < 4)"
  shows "create_route L st pid password t1 t2 =
           (Json 400 [(''error'', JStr ''Password must be at least 4 characters'')], st)
       \<and> status_of (fst (create_pad_old L st urlName password salt t1 t2)) = 400
       \<and> snd (create_pad_old L st urlName password salt t1 t2) = st"
  using assms
  by (auto simp: create_route_def create_pad_old_def status_of_def Let_def split: option.splits)

theorem create_rejects_short_password_witness:
  "(Some ''abc'' = None \<or> (\<exists>s. Some ''abc'' = Some s \<and> length s < 4))
   \<and> create_route demo_crypto demo_server ''fresh'' (Some ''abc'') 5 6 =
           (Json 400 [(''error'', JStr ''Password must be at least 4 characters'')], demo_server)
   \<and> fst (create_pad_old demo_crypto demo_server_old (Some ''fresh'') (Some ''abc'') ''salt'' 5 6) =
           Json 400 [(''error'', JStr ''Password must be at least 4 characters'')]
   \<and> snd (create_pad_old demo_crypto demo_server_old (Some ''fresh'') (Some ''abc'') ''salt'' 5 6)
       = demo_server_old"
  using create_rejects_short_password [of "Some ''abc''" demo_crypto demo_server "''fresh''" 5 6]
    create_rejects_short_password [of "Some ''abc''" demo_crypto demo_server_old "''fresh''" 5 6
      "Some ''fresh''" "''salt''"]
  by (simp add: create_pad_old_def isValidCustomUrl_def url_char_def Let_def)

subsection \<open>A save with the wrong secret changes nothing\<close>

text \<open>
  Claim C5. For a stored pad and a save request whose secret does not verify against the
  stored digest, the answer is 401 "Incorrect password" and the server state returned is
  the one received, so the pad's content and last-modified stamp are what they were.
  The first conjunct is \<^verbatim>\<open>server.js\<close> (digest comparison), the second
  \<^verbatim>\<open>server-old.js\<close> (\<^verbatim>\<open>bcrypt.compare\<close>). The request carries a secret; a request
  with no password field makes the digest call throw and is answered with 500, see
  \<open>save_failure_keeps_store\<close> below.
\<close>

theorem save_wrong_secret_unchanged:
  assumes "map_of (pads st) pid = Some data"
  shows "(passwordHash data \<noteq> sha256hex L s \<longrightarrow>
            save_route L st pid (Some s) newContent t =
              (Json 401 [(''error'', JStr ''Incorrect password'')], st))
       \<and> (\<not> bcrypt_compare L s (passwordHash data) \<longrightarrow>
            save_old L st pid (Some s) newContent t =
              (Json 401 [(''error'', JStr ''Incorrect password'')], st))"
  using assms
  by (simp add: save_route_def save_old_def readPad_def padExists_def hashPassword_def
      verifyPassword_def Let_def)

theorem save_wrong_secret_unchanged_witness:
  "map_of (pads demo_server) ''demo'' = Some demo_pad
   \<and> passwordHash demo_pad \<noteq> sha256hex demo_crypto ''wrong''
   \<and> save_route demo_crypto demo_server ''demo'' (Some ''wrong'') ''overwritten'' 3000 =
       (Json 401 [(''error'', JStr ''Incorrect password'')], demo_server)
   \<and> map_of (pads demo_server_old) ''demo'' = Some demo_pad_old
   \<and> \<not> bcrypt_compare demo_crypto ''wrong'' (passwordHash demo_pad_old)
   \<and> save_old demo_crypto demo_server_old ''demo'' (Some ''wrong'') ''overwritten'' 3000 =
       (Json 401 [(''error'', JStr ''Incorrect password'')], demo_server_old)
   \<and> fst (save_route demo_crypto demo_server ''demo'' (Some ''abcd'') ''overwritten'' 3000) =
       Json 200 [(''success'', JBool True)]"
  using save_wrong_secret_unchanged [of demo_server "''demo''" demo_pad demo_crypto "''wrong''"
      "''overwritten''" 3000]
    save_wrong_secret_unchanged [of demo_server_old "''demo''" demo_pad_old demo_crypto "''wrong''"
      "''overwritten''" 3000]
  by (simp add: demo_server_def demo_server_old_def demo_pad_def demo_pad_old_def demo_crypto_def
      save_route_def readPad_def hashPassword_def)

text \<open>
  Whatever makes a save of \<^verbatim>\<open>server.js\<close> fail (unknown pad, missing or wrong secret), the
  pads and the payloads are left as they were; only the log may grow.
\<close>

lemma save_failure_keeps_store:
  "fst (save_route L st pid password newContent t) \<noteq> Json 200 [(''success'', JBool True)] \<Longrightarrow>
     pads (snd (save_route L st pid password newContent t)) = pads st \<and>
     uploads (snd (save_route L st pid password newContent t)) = uploads st"
  by (auto simp: save_route_def console_error_def split: sum.splits if_splits)

subsection \<open>Digest and verification\<close>



text \<open>
  \<^verbatim>\<open>server-old.js\<close> leaves both directions to the bcrypt package. Given the package's
  contract that a secret compares equal to its own hash, a login with the secret a pad
  was created with succeeds.
\<close>

lemma login_after_create_old:
  assumes "isValidCustomUrl u" and "4 \<le> length s" and "\<not> padExists st u"
    and contract: "bcrypt_compare L s (bcrypt_hash L salt s)"
  shows "fst (login_old L (snd (create_pad_old L st (Some u) (Some s) salt t1 t2)) (Some u) (Some s))
           = Json 200 [(''success'', JBool True), (''padId'', JStr u)]"
proof -
  from assms(1) have u: "u \<noteq> []" by (auto simp: isValidCustomUrl_def)
  from assms(2) have s: "s \<noteq> []" by auto
  from assms u s have c: "snd (create_pad_old L st (Some u) (Some s) salt t1 t2) =
      writePad st u \<lparr>padId = Some u, content = [], files = [],
                       passwordHash = hashPassword_old L salt s,
                       createdAt = t1, lastModified = None, updatedAt = Some t2\<rparr>"
    by (simp add: create_pad_old_def Let_def)
  show ?thesis
    unfolding c using u s contract
    by (simp add: login_old_def padExists_def readPad_def verifyPassword_def hashPassword_old_def
        map_of_writePad Let_def)
qed

subsection \<open>Creating over an existing pad\<close>

text \<open>
  \<^verbatim>\<open>server-old.js\<close> asks \<open>padExists\<close> before it writes: a create request for a taken URL
  name leaves the store alone, and a well-formed one is answered with 409.
\<close>

lemma create_pad_old_keeps_existing:
  assumes "padExists st u"
  shows "snd (create_pad_old L st (Some u) password salt t1 t2) = st"
    and "isValidCustomUrl u \<Longrightarrow> password = Some s \<Longrightarrow> 4 \<le> length s \<Longrightarrow>
           fst (create_pad_old L st (Some u) password salt t1 t2) =
             Json 409 [(''error'', JStr ''This URL name is already taken.'')]"
  using assms
  by (auto simp: create_pad_old_def isValidCustomUrl_def Let_def split: option.splits)

text \<open>
  \<^verbatim>\<open>server.js\<close> does not ask: every create request with a secret of four characters or
  more writes a fresh pad under the id, whether or not one is stored there.
\<close>

lemma create_route_replaces:
  "4 \<le> length s \<Longrightarrow>
     create_route L st pid (Some s) t1 t2 =
       (Json 200 [(''success'', JBool True)],
        writePad st pid \<lparr>padId = None, content = [], files = [],
                          passwordHash = sha256hex L s, createdAt = t1,
                          lastModified = Some t2, updatedAt = None\<rparr>)"
  by (auto simp: create_route_def hashPassword_def)

text \<open>
  Claim C1 says that a create request for the id of an existing pad fails with
  AlreadyExists and leaves that pad's content and credential as they were. On
  \<^verbatim>\<open>server.js\<close> the request below, for the stored pad \<open>demo\<close> (content "hello world",
  digest of "abcd"), is answered with success, and the pad is replaced by an empty one
  that carries the digest of the new secret "zzzz".
\<close>

theorem create_overwrites_existing_pad:
  "map_of (pads demo_server) ''demo'' = Some demo_pad
   \<and> content demo_pad = ''hello world''
   \<and> passwordHash demo_pad = ''sha256:abcd''
   \<and> create_route demo_crypto demo_server ''demo'' (Some ''zzzz'') 3000 3001 =
       (Json 200 [(''success'', JBool True)],
        \<lparr>pads = [(''demo'', \<lparr>padId = None, content = [], files = [],
                     passwordHash = ''sha256:zzzz'', createdAt = 3000,
                     lastModified = Some 3001, updatedAt = None\<rparr>)],
         uploads = [], logs = []\<rparr>)"
  by (simp add: create_route_def hashPassword_def writePad_def demo_server_def demo_pad_def
      demo_crypto_def)

subsection \<open>What a failed login reveals\<close>

text \<open>
  Claim C4, as stated, covers the verify route of \<^verbatim>\<open>server.js\<close>. That route answers an
  unknown pad id with 404 "Pad not found" and a wrong secret for a stored pad with
  200 \<open>success: false\<close>: the two answers differ.
\<close>

theorem verify_reveals_unknown_pad:
  "map_of (pads empty_server) ''demo'' = None
   \<and> map_of (pads demo_server) ''demo'' = Some demo_pad
   \<and> passwordHash demo_pad \<noteq> sha256hex demo_crypto ''wrong''
   \<and> verify_route demo_crypto empty_server ''demo'' (Some ''wrong'') =
       Json 404 [(''success'', JBool False), (''error'', JStr ''Pad not found'')]
   \<and> verify_route demo_crypto demo_server ''demo'' (Some ''wrong'') =
       Json 200 [(''success'', JBool False)]
   \<and> verify_route demo_crypto empty_server ''demo'' (Some ''wrong'') \<noteq>
       verify_route demo_crypto demo_server ''demo'' (Some ''wrong'')"
  by (simp add: verify_route_def readPad_def hashPassword_def demo_server_def empty_server_def
      demo_pad_def demo_crypto_def)

text \<open>
  Claim C4, amended. On the login route of \<^verbatim>\<open>server-old.js\<close> a request for an unknown
  URL name and the same request against a stored pad whose secret it does not match
  receive the same response. The verify route of \<^verbatim>\<open>server.js\<close> tells them apart: 404
  "Pad not found" for the unknown id, 200 \<open>success: false\<close> for the wrong secret.
\<close>

theorem login_hides_unknown_pad:
  assumes "map_of (pads st1) u = None"
      and "map_of (pads st2) u = Some data"
  shows "(verifyPassword L password (passwordHash data) \<noteq> Inr True \<longrightarrow>
            fst (login_old L st1 (Some u) password) = fst (login_old L st2 (Some u) password))
       \<and> verify_route L st1 u (Some s) =
            Json 404 [(''success'', JBool False), (''error'', JStr ''Pad not found'')]
       \<and> (passwordHash data \<noteq> sha256hex L s \<longrightarrow>
            verify_route L st2 u (Some s) = Json 200 [(''success'', JBool False)])"
  using assms
  by (auto simp: login_old_def verify_route_def padExists_def readPad_def verifyPassword_def
      hashPassword_def Let_def split: option.splits)

theorem login_hides_unknown_pad_witness:
  "map_of (pads empty_server) ''demo'' = None
   \<and> map_of (pads demo_server_old) ''demo'' = Some demo_pad_old
   \<and> verifyPassword demo_crypto (Some ''wrong'') (passwordHash demo_pad_old) \<noteq> Inr True
   \<and> fst (login_old demo_crypto empty_server (Some ''demo'') (Some ''wrong'')) =
       Json 401 [(''error'', JStr ''Incorrect URL or password.'')]
   \<and> fst (login_old demo_crypto demo_server_old (Some ''demo'') (Some ''wrong'')) =
       Json 401 [(''error'', JStr ''Incorrect URL or password.'')]
   \<and> fst (login_old demo_crypto demo_server_old (Some ''demo'') (Some ''abcd'')) =
       Json 200 [(''success'', JBool True), (''padId'', JStr ''demo'')]
   \<and> passwordHash demo_pad_old \<noteq> sha256hex demo_crypto ''wrong''
   \<and> verify_route demo_crypto demo_server_old ''demo'' (Some ''wrong'') =
       Json 200 [(''success'', JBool False)]"
  using login_hides_unknown_pad [of empty_server "''demo''" demo_server_old demo_pad_old demo_crypto
      "Some ''wrong''" "''wrong''"]
  by (simp add: login_old_def padExists_def readPad_def verifyPassword_def Let_def
      demo_server_old_def empty_server_def demo_pad_old_def demo_crypto_def)

subsection \<open>The expiry stamp of an upload\<close>

lemma multer_single_Some: "multer_single part = Inr (Some f) \<Longrightarrow> part = Some f"
  by (auto simp: multer_single_def split: option.splits if_splits)

lemma upload_route_success:
  assumes "status_of (fst (upload_route L st pid password part fileId t1 t2)) = 200"
  shows "\<exists>f padData.
           part = Some f \<and> readPad st pid = Inr padData \<and>
           upload_route L st pid password part fileId t1 t2 =
             (Json 200 [(''success'', JBool True),
                (''file'', JFile \<lparr>file_id = fileId, file_name = originalname f,
                          file_size = length (buffer f),
                          uploadedAt = t1, expiresAt = t2 + 86400000\<rparr>)],
              writePad (writeUpload (mkdir_recursive st pid) pid
                          (fileId @ extname (originalname f)) (buffer f))
                pid (padData\<lparr>files := files padData @
                       [\<lparr>file_id = fileId, file_name = originalname f,
                          file_size = length (buffer f),
                          uploadedAt = t1, expiresAt = t2 + 86400000\<rparr>]\<rparr>))"
  using assms
  by (auto simp: upload_route_def status_of_def Let_def dest!: multer_single_Some
      split: sum.splits option.splits if_splits)

lemma upload_old_success:
  assumes "status_of (fst (upload_old L st pid password part fileId t1 t2 t3)) = 200"
  shows "\<exists>f padData.
           part = Some f \<and> readPad st pid = Inr padData \<and>
           upload_old L st pid password part fileId t1 t2 t3 =
             (Json 200 [(''success'', JBool True),
                (''file'', JFile \<lparr>file_id = fileId, file_name = originalname f,
                          file_size = length (buffer f),
                          uploadedAt = t1, expiresAt = t2 + 86400000\<rparr>)],
              writePad (writeUpload (mkdir_recursive st pid) pid
                          (fileId @ extname (originalname f)) (buffer f))
                pid (padData\<lparr>files := files padData @
                       [\<lparr>file_id = fileId, file_name = originalname f,
                          file_size = length (buffer f),
                          uploadedAt = t1, expiresAt = t2 + 86400000\<rparr>],
                       updatedAt := Some t3\<rparr>))"
  using assms
  by (auto simp: upload_old_def status_of_def Let_def dest!: multer_single_Some
      split: sum.splits option.splits if_splits)

text \<open>The upload of an eight-byte PNG to the pad \<open>demo\<close>, on either server.\<close>

lemma png_upload_checks:
  "validateMime png_bytes ''pic.png''"
  "extname ''pic.png'' = ''.png''"
  "fileFilter \<lparr>originalname = ''pic.png'', buffer = png_bytes\<rparr>"
  "length png_bytes = 8"
  by code_simp+

lemma demo_upload:
  "upload_route demo_crypto demo_server ''demo'' (Some ''abcd'')
     (Some \<lparr>originalname = ''pic.png'', buffer = png_bytes\<rparr>) ''dd44'' t1 t2 =
   (Json 200 [(''success'', JBool True),
      (''file'', JFile \<lparr>file_id = ''dd44'', file_name = ''pic.png'', file_size = 8,
                        uploadedAt = t1, expiresAt = t2 + 86400000\<rparr>)],
    \<lparr>pads = [(''demo'', demo_pad\<lparr>files :=
               [\<lparr>file_id = ''dd44'', file_name = ''pic.png'', file_size = 8,
                  uploadedAt = t1, expiresAt = t2 + 86400000\<rparr>]\<rparr>)],
     uploads = [(''demo'', [(''dd44.png'', png_bytes)])], logs = []\<rparr>)"
  by (simp add: upload_route_def multer_single_def MAX_FILE_SIZE_def png_upload_checks
      readPad_def hashPassword_def demo_server_def demo_pad_def
      demo_crypto_def mkdir_recursive_def writeUpload_def writePad_def Let_def)

lemma demo_upload_old:
  "upload_old demo_crypto demo_server_old ''demo'' (Some ''abcd'')
     (Some \<lparr>originalname = ''pic.png'', buffer = png_bytes\<rparr>) ''dd44'' t1 t2 t3 =
   (Json 200 [(''success'', JBool True),
      (''file'', JFile \<lparr>file_id = ''dd44'', file_name = ''pic.png'', file_size = 8,
                        uploadedAt = t1, expiresAt = t2 + 86400000\<rparr>)],
    \<lparr>pads = [(''demo'', demo_pad_old\<lparr>files :=
               [\<lparr>file_id = ''dd44'', file_name = ''pic.png'', file_size = 8,
                  uploadedAt = t1, expiresAt = t2 + 86400000\<rparr>], updatedAt := Some t3\<rparr>)],
     uploads = [(''demo'', [(''dd44.png'', png_bytes)])], logs = []\<rparr>)"
  by (simp add: upload_old_def multer_single_def MAX_FILE_SIZE_def png_upload_checks
      readPad_def padExists_def verifyPassword_def demo_server_old_def demo_pad_old_def
      demo_crypto_def mkdir_recursive_def writeUpload_def writePad_def Let_def)

text \<open>
  Claim C3 says that \<open>expiresAt\<close> is \<open>uploadedAt\<close> plus 24 hours exactly. The handler
  reads the clock twice, first for \<open>uploadedAt\<close> and then for \<open>expiresAt\<close>; when the
  clock moves from 1000 to 1001 between the two reads, the attachment returned has
  \<open>uploadedAt = 1000\<close> and \<open>expiresAt = 86401001\<close>, one millisecond more than the
  claim allows.
\<close>

theorem upload_expiry_not_exact:
  "fst (upload_route demo_crypto demo_server ''demo'' (Some ''abcd'')
     (Some \<lparr>originalname = ''pic.png'', buffer = png_bytes\<rparr>) ''dd44'' 1000 1001) =
   Json 200 [(''success'', JBool True),
      (''file'', JFile \<lparr>file_id = ''dd44'', file_name = ''pic.png'', file_size = 8,
                        uploadedAt = 1000, expiresAt = 86401001\<rparr>)]
   \<and> (86401001 :: int) \<noteq> 1000 + 24 * 60 * 60 * 1000"
  by (simp add: demo_upload)

text \<open>
  Claim C3, amended. For every successful upload, on either server, the attachment
  returned is the one stored last in the pad's list; its \<open>uploadedAt\<close> is the first
  clock read \<open>t1\<close> and its \<open>expiresAt\<close> is the second clock read \<open>t2\<close> plus 24 hours
  (86400000 ms). So \<open>expiresAt = uploadedAt + 24h\<close> holds whenever the two reads
  return the same millisecond.
\<close>

theorem upload_expiry_offset:
  "(status_of (fst (upload_route L st pid password part fileId t1 t2)) = 200 \<longrightarrow>
      (\<exists>info padData.
          fst (upload_route L st pid password part fileId t1 t2) =
            Json 200 [(''success'', JBool True), (''file'', JFile info)] \<and>
          map_of (pads (snd (upload_route L st pid password part fileId t1 t2))) pid
            = Some padData \<and>
          files padData \<noteq> [] \<and> last (files padData) = info \<and>
          uploadedAt info = t1 \<and> expiresAt info = t2 + 24 * 60 * 60 * 1000 \<and>
          (t1 = t2 \<longrightarrow> expiresAt info = uploadedAt info + 24 * 60 * 60 * 1000)))
 \<and> (status_of (fst (upload_old L st pid password part fileId t1 t2 t3)) = 200 \<longrightarrow>
      (\<exists>info padData.
          fst (upload_old L st pid password part fileId t1 t2 t3) =
            Json 200 [(''success'', JBool True), (''file'', JFile info)] \<and>
          map_of (pads (snd (upload_old L st pid password part fileId t1 t2 t3))) pid
            = Some padData \<and>
          files padData \<noteq> [] \<and> last (files padData) = info \<and>
          uploadedAt info = t1 \<and> expiresAt info = t2 + 24 * 60 * 60 * 1000 \<and>
          (t1 = t2 \<longrightarrow> expiresAt info = uploadedAt info + 24 * 60 * 60 * 1000)))"
proof (intro conjI impI)
  assume "status_of (fst (upload_route L st pid password part fileId t1 t2)) = 200"
  from upload_route_success [OF this]
  show "\<exists>info padData.
          fst (upload_route L st pid password part fileId t1 t2) =
            Json 200 [(''success'', JBool True), (''file'', JFile info)] \<and>
          map_of (pads (snd (upload_route L st pid password part fileId t1 t2))) pid
            = Some padData \<and>
          files padData \<noteq> [] \<and> last (files padData) = info \<and>
          uploadedAt info = t1 \<and> expiresAt info = t2 + 24 * 60 * 60 * 1000 \<and>
          (t1 = t2 \<longrightarrow> expiresAt info = uploadedAt info + 24 * 60 * 60 * 1000)"
    by (auto simp: map_of_writePad)
next
  assume "status_of (fst (upload_old L st pid password part fileId t1 t2 t3)) = 200"
  from upload_old_success [OF this]
  show "\<exists>info padData.
          fst (upload_old L st pid password part fileId t1 t2 t3) =
            Json 200 [(''success'', JBool True), (''file'', JFile info)] \<and>
          map_of (pads (snd (upload_old L st pid password part fileId t1 t2 t3))) pid
            = Some padData \<and>
          files padData \<noteq> [] \<and> last (files padData) = info \<and>
          uploadedAt info = t1 \<and> expiresAt info = t2 + 24 * 60 * 60 * 1000 \<and>
          (t1 = t2 \<longrightarrow> expiresAt info = uploadedAt info + 24 * 60 * 60 * 1000)"
    by (auto simp: map_of_writePad)
qed

theorem upload_expiry_offset_witness:
  "status_of (fst (upload_route demo_crypto demo_server ''demo'' (Some ''abcd'')
       (Some \<lparr>originalname = ''pic.png'', buffer = png_bytes\<rparr>) ''dd44'' 1000 1000)) = 200
   \<and> status_of (fst (upload_old demo_crypto demo_server_old ''demo'' (Some ''abcd'')
       (Some \<lparr>originalname = ''pic.png'', buffer = png_bytes\<rparr>) ''dd44'' 1000 1000 1002)) = 200
   \<and> (\<exists>info padData.
        fst (upload_route demo_crypto demo_server ''demo'' (Some ''abcd'')
          (Some \<lparr>originalname = ''pic.png'', buffer = png_bytes\<rparr>) ''dd44'' 1000 1000) =
          Json 200 [(''success'', JBool True), (''file'', JFile info)] \<and>
        map_of (pads (snd (upload_route demo_crypto demo_server ''demo'' (Some ''abcd'')
          (Some \<lparr>originalname = ''pic.png'', buffer = png_bytes\<rparr>) ''dd44'' 1000 1000))) ''demo''
          = Some padData \<and>
        last (files padData) = info \<and> uploadedAt info = 1000 \<and> expiresAt info = 86401000)
   \<and> (\<exists>info padData.
        fst (upload_old demo_crypto demo_server_old ''demo'' (Some ''abcd'')
          (Some \<lparr>originalname = ''pic.png'', buffer = png_bytes\<rparr>) ''dd44'' 1000 1000 1002) =
          Json 200 [(''success'', JBool True), (''file'', JFile info)] \<and>
        map_of (pads (snd (upload_old demo_crypto demo_server_old ''demo'' (Some ''abcd'')
          (Some \<lparr>originalname = ''pic.png'', buffer = png_bytes\<rparr>) ''dd44'' 1000 1000 1002))) ''demo''
          = Some padData \<and>
        last (files padData) = info \<and> uploadedAt info = 1000 \<and> expiresAt info = 86401000)"
  using upload_expiry_offset [of demo_crypto demo_server "''demo''" "Some ''abcd''"
      "Some \<lparr>originalname = ''pic.png'', buffer = png_bytes\<rparr>" "''dd44''" 1000 1000 1002]
    upload_expiry_offset [of demo_crypto demo_server_old "''demo''" "Some ''abcd''"
      "Some \<lparr>originalname = ''pic.png'', buffer = png_bytes\<rparr>" "''dd44''" 1000 1000 1002]
  by (simp add: demo_upload demo_upload_old status_of_def)

subsection \<open>Downloading an expired attachment\<close>

text \<open>
  Claim C2 says that the failed read of an expired attachment removes its metadata
  entry and its payload. On \<^verbatim>\<open>server.js\<close> the download of \<open>aa11\<close>, expired at time
  \<open>90000000\<close>, with the right secret is answered with 410 "File expired" and returns
  the server state unchanged: the pad's listing still shows the attachment and the
  payload \<open>aa11.png\<close> is still in the pad's directory.
\<close>

theorem download_expired_keeps_entry:
  "download_route demo_crypto demo_files_server ''demo'' ''aa11'' (Some ''abcd'') 90000000 =
     (Json 410 [(''error'', JStr ''File expired'')], demo_files_server)
   \<and> get_route demo_crypto demo_files_server ''demo'' (Some ''abcd'') =
     Json 200 [(''content'', JStr ''hello world''),
               (''files'', JFiles [demo_file_old, demo_file_live])]
   \<and> readdir demo_files_server ''demo'' = Inr [''aa11.png'', ''bb22.pdf'']
   \<and> expiresAt demo_file_old < 90000000"
  by (simp add: download_route_def get_route_def readdir_def readPad_def hashPassword_def
      demo_files_server_def demo_pad_def demo_crypto_def demo_file_old_def demo_file_live_def
      Let_def)

text \<open>
  Claim C2, amended. A download with the right secret of an attachment whose expiry
  stamp is before the clock read is answered with 410 "File expired" (the answer for
  an unknown attachment is 404 "File not found"), on either server, and the server
  state is returned as it was received: the entry stays in the pad's list, which the
  get route still returns in full, until a sweep drops it.
\<close>

theorem download_expired_answer:
  assumes "map_of (pads st) pid = Some padData"
      and "find (\<lambda>f. file_id f = fileId) (files padData) = Some info"
      and "expiresAt info < now"
  shows "(passwordHash padData = sha256hex L s \<longrightarrow>
            download_route L st pid fileId (Some s) now =
              (Json 410 [(''error'', JStr ''File expired'')], st)
          \<and> get_route L st pid (Some s) =
              Json 200 [(''content'', JStr (content padData)), (''files'', JFiles (files padData))])
       \<and> (bcrypt_compare L s (passwordHash padData) \<longrightarrow>
            download_old L st pid fileId (Some s) now =
              (Json 410 [(''error'', JStr ''File expired'')], st))
       \<and> info \<in> set (files padData)"
  using assms
  by (auto simp: download_route_def download_old_def get_route_def readPad_def padExists_def
      hashPassword_def verifyPassword_def Let_def dest: find_Some_iff [THEN iffD1] nth_mem)

theorem download_expired_answer_witness:
  "map_of (pads demo_files_server) ''demo''
     = Some (demo_pad\<lparr>files := [demo_file_old, demo_file_live]\<rparr>)
   \<and> map_of (pads demo_files_server_old) ''demo''
     = Some (demo_pad_old\<lparr>files := [demo_file_old, demo_file_live]\<rparr>)
   \<and> find (\<lambda>f. file_id f = ''aa11'') [demo_file_old, demo_file_live] = Some demo_file_old
   \<and> expiresAt demo_file_old < 90000000
   \<and> passwordHash demo_pad = sha256hex demo_crypto ''abcd''
   \<and> download_route demo_crypto demo_files_server ''demo'' ''aa11'' (Some ''abcd'') 90000000 =
       (Json 410 [(''error'', JStr ''File expired'')], demo_files_server)
   \<and> bcrypt_compare demo_crypto ''abcd'' (passwordHash demo_pad_old)
   \<and> download_old demo_crypto demo_files_server_old ''demo'' ''aa11'' (Some ''abcd'') 90000000 =
       (Json 410 [(''error'', JStr ''File expired'')], demo_files_server_old)
   \<and> demo_file_old \<in> set [demo_file_old, demo_file_live]"
  using download_expired_answer [of demo_files_server "''demo''"
      "demo_pad\<lparr>files := [demo_file_old, demo_file_live]\<rparr>" "''aa11''" demo_file_old 90000000
      demo_crypto "''abcd''"]
    download_expired_answer [of demo_files_server_old "''demo''"
      "demo_pad_old\<lparr>files := [demo_file_old, demo_file_live]\<rparr>" "''aa11''" demo_file_old 90000000
      demo_crypto "''abcd''"]
  by (simp add: demo_files_server_def demo_files_server_old_def demo_pad_def demo_pad_old_def
      demo_crypto_def demo_file_old_def)

subsection \<open>Uploads without a known signature\<close>

text \<open>The hexadecimal rendering of a buffer determines its bytes.\<close>

lemma hex_digit_inj:
  assumes "a < 16" "b < 16" "hex_digit a = hex_digit b"
  shows "a = b"
proof -
  have d: "distinct ''0123456789abcdef''" by simp
  have l: "length ''0123456789abcdef'' = 16" by simp
  from assms show ?thesis
    unfolding hex_digit_def using nth_eq_iff_index_eq [OF d, of a b] l by simp
qed

lemma hex_byte_inj:
  assumes "hex_byte a = hex_byte b"
  shows "a = b"
proof -
  have ua: "unat a < 256" using unsigned_less [of a, where ?'a = nat] by simp
  have ub: "unat b < 256" using unsigned_less [of b, where ?'a = nat] by simp
  from assms have "hex_digit (unat a div 16) = hex_digit (unat b div 16)"
    and "hex_digit (unat a mod 16) = hex_digit (unat b mod 16)"
    by (simp_all add: hex_byte_def)
  with ua ub have "unat a div 16 = unat b div 16" and "unat a mod 16 = unat b mod 16"
    by (auto intro!: hex_digit_inj simp: less_mult_imp_div_less)
  then have "unat a = unat b"
    by (metis div_mult_mod_eq)
  then show ?thesis by (simp add: word_unat_eq_iff)
qed

lemma toString_hex_Cons: "toString_hex (b # bs) = hex_byte b @ toString_hex bs"
  by (simp add: toString_hex_def)

lemma prefix_toString_hex:
  "prefix (toString_hex p) (toString_hex bs) \<Longrightarrow> prefix p bs"
proof (induction p arbitrary: bs)
  case Nil
  then show ?case by simp
next
  case (Cons a p)
  show ?case
  proof (cases bs)
    case Nil
    with Cons.prems show ?thesis by (simp add: toString_hex_def hex_byte_def)
  next
    case (Cons b bs')
    with Cons.prems have "hex_byte a = hex_byte b \<and> prefix (toString_hex p) (toString_hex bs')"
      by (simp add: toString_hex_Cons hex_byte_def)
    with Cons.IH [of bs'] hex_byte_inj [of a b] Cons show ?thesis by simp
  qed
qed

text \<open>The header strings that \<open>validateMime\<close> looks for are the renderings of the magic numbers.\<close>

lemma magic_hex:
  "''25504446'' = toString_hex [0x25, 0x50, 0x44, 0x46]"
  "''ffd8ff'' = toString_hex [0xff, 0xd8, 0xff]"
  "''89504e47'' = toString_hex [0x89, 0x50, 0x4e, 0x47]"
  "''504b0304'' = toString_hex [0x50, 0x4b, 0x03, 0x04]"
  "''504b0506'' = toString_hex [0x50, 0x4b, 0x05, 0x06]"
  by code_simp+

lemma header_startsWith:
  assumes "startsWith (toString_hex (take 8 buf)) (toString_hex sig)"
  shows "prefix sig buf"
proof -
  from assms have "prefix sig (take 8 buf)"
    by (simp add: startsWith_def prefix_toString_hex)
  then show ?thesis
    using take_is_prefix [of 8 buf] by (rule prefix_order.trans)
qed

lemma validateMime_signature:
  assumes "validateMime buf filename"
  shows "\<exists>sig \<in> set magic_signatures. prefix sig buf"
proof -
  from assms have
    "startsWith (toString_hex (take 8 buf)) ''25504446'' \<or>
     startsWith (toString_hex (take 8 buf)) ''ffd8ff'' \<or>
     startsWith (toString_hex (take 8 buf)) ''89504e47'' \<or>
     startsWith (toString_hex (take 8 buf)) ''504b0304'' \<or>
     startsWith (toString_hex (take 8 buf)) ''504b0506''"
    by (auto simp: validateMime_def Let_def split: if_splits)
  then show ?thesis
    unfolding magic_hex magic_signatures_def
    by (auto dest!: header_startsWith)
qed

text \<open>
  Claim C6. When the buffer of an uploaded file starts with none of the magic numbers
  (PDF, JPEG, PNG, ZIP), \<open>validateMime\<close> refuses it whatever its file name; the upload
  is never answered with success and leaves pads and payloads as they were, whoever
  sends it; and for a request with the right secret for a stored pad and a file within
  the size limit the answer is an invalid-file refusal, with the state unchanged.
  The witness is a plain text file named \<open>notes.pdf\<close>.
\<close>

theorem upload_rejects_unknown_signature:
  assumes "\<not> (\<exists>sig \<in> set magic_signatures. prefix sig (buffer f))"
  shows "\<not> validateMime (buffer f) (originalname f)
       \<and> status_of (fst (upload_route L st pid password (Some f) fileId t1 t2)) \<noteq> 200
       \<and> pads (snd (upload_route L st pid password (Some f) fileId t1 t2)) = pads st
       \<and> uploads (snd (upload_route L st pid password (Some f) fileId t1 t2)) = uploads st
       \<and> (map_of (pads st) pid = Some padData \<and> passwordHash padData = sha256hex L s \<and>
          length (buffer f) \<le> MAX_FILE_SIZE \<longrightarrow>
            invalid_file_response (fst (upload_route L st pid (Some s) (Some f) fileId t1 t2)) \<and>
            snd (upload_route L st pid (Some s) (Some f) fileId t1 t2) = st)"
proof -
  from assms have nv: "\<not> validateMime (buffer f) (originalname f)"
    using validateMime_signature by blast
  then show ?thesis
    by (auto simp: upload_route_def multer_single_def status_of_def console_error_def
        invalid_file_response_def readPad_def hashPassword_def Let_def
        split: sum.splits option.splits)
qed

lemma text_upload_checks:
  "fileFilter \<lparr>originalname = ''notes.pdf'', buffer = text_bytes\<rparr>"
  "length text_bytes = 12"
  "\<not> (\<exists>sig \<in> set magic_signatures. prefix sig text_bytes)"
    by code_simp+

theorem upload_rejects_unknown_signature_witness:
  "\<not> (\<exists>sig \<in> set magic_signatures.
         prefix sig (buffer \<lparr>originalname = ''notes.pdf'', buffer = text_bytes\<rparr>))
   \<and> map_of (pads demo_server) ''demo'' = Some demo_pad
   \<and> passwordHash demo_pad = sha256hex demo_crypto ''abcd''
   \<and> length text_bytes \<le> MAX_FILE_SIZE
   \<and> upload_route demo_crypto demo_server ''demo'' (Some ''abcd'')
        (Some \<lparr>originalname = ''notes.pdf'', buffer = text_bytes\<rparr>) ''dd44'' 1000 1001 =
      (Json 400 [(''error'', JStr ''Invalid or corrupted file'')], demo_server)"
  using upload_rejects_unknown_signature
    [of "\<lparr>originalname = ''notes.pdf'', buffer = text_bytes\<rparr>" demo_crypto demo_server "''demo''"
       "Some ''abcd''" "''dd44''" 1000 1001 demo_pad "''abcd''"]
  by (simp add: text_upload_checks MAX_FILE_SIZE_def upload_route_def multer_single_def
      readPad_def hashPassword_def demo_server_def demo_pad_def demo_crypto_def Let_def)

section \<open>The expiry sweep\<close>

subsection \<open>Loops that complete\<close>

lemma for_of_completes:
  assumes "\<And>x s. x \<in> set xs \<Longrightarrow> fst (body x s) = None"
  shows "fst (for_of xs body s) = None"
  using assms
proof (induction xs arbitrary: s)
  case Nil
  then show ?case by simp
next
  case (Cons x xs)
  have "fst (body x s) = None" using Cons.prems by simp
  then obtain s' where "body x s = (None, s')" by (cases "body x s") auto
  with Cons show ?case by simp
qed

lemma for_of_preserves:
  assumes "\<And>x s. x \<in> set xs \<Longrightarrow> P s \<Longrightarrow> P (snd (body x s))" and "P s"
  shows "P (snd (for_of xs body s))"
  using assms
proof (induction xs arbitrary: s)
  case Nil
  then show ?case by simp
next
  case (Cons x xs)
  have step: "P (snd (body x s))" using Cons.prems by simp
  show ?case
  proof (cases "body x s")
    case (Pair r s')
    with step have "P s'" by simp
    with Cons Pair show ?thesis by (cases r) auto
  qed
qed

lemma for_of_reaches:
  assumes "f \<in> set xs" and "R s"
    and others: "\<And>x s. x \<in> set xs \<Longrightarrow> x \<noteq> f \<Longrightarrow> R s \<Longrightarrow>
                   R (snd (body x s)) \<and> fst (body x s) = None"
    and hit: "\<And>s. R s \<Longrightarrow> G (snd (body f s))"
    and keep: "\<And>x s. x \<in> set xs \<Longrightarrow> G s \<Longrightarrow> G (snd (body x s))"
  shows "G (snd (for_of xs body s))"
  using assms
proof (induction xs arbitrary: s)
  case Nil
  then show ?case by simp
next
  case (Cons x xs)
  show ?case
  proof (cases "x = f")
    case True
    from Cons.prems(2) Cons.prems(4) have g: "G (snd (body f s))" by simp
    obtain r s' where b: "body f s = (r, s')" by (cases "body f s")
    with g have g': "G s'" by simp
    have "G (snd (for_of xs body s'))"
      by (rule for_of_preserves [where P = G]) (use Cons.prems(5) g' in auto)
    with b g' True show ?thesis by (cases r) auto
  next
    case False
    with Cons.prems have fx: "f \<in> set xs" by simp
    from Cons.prems(3) [of x s] False Cons.prems(2)
    have r: "R (snd (body x s))" and n: "fst (body x s) = None" by simp_all
    then obtain s' where b: "body x s = (None, s')" by (cases "body x s") auto
    with r have "R s'" by simp
    then have "G (snd (for_of xs body s'))"
      using Cons.IH [of s'] fx Cons.prems(3,4,5) by simp
    with b show ?thesis by simp
  qed
qed

subsection \<open>One payload deletion\<close>

lemma try_delete_unfold:
  "try_catch (delete_payload env pid f) (log_delete_error f) s =
     (None,
      case fst (delete_payload env pid f s) of
        None \<Rightarrow> snd (delete_payload env pid f s)
      | Some e \<Rightarrow> (console_error (ErrorDeletingFile (file_id f)) (fst s), snd s))"
  by (cases s)
     (auto simp: try_catch_def delete_payload_def log_delete_error_def
           split: sum.splits option.splits)

lemma try_delete_completes:
  "fst (try_catch (delete_payload env pid f) (log_delete_error f) s) = None"
  by (simp add: try_delete_unfold)

text \<open>
  A payload that is missing from an existing directory is no failure: the entry is
  skipped, nothing is logged, and the loop goes on.
\<close>

lemma try_delete_missing_file:
  assumes "readdir (fst s) k = Inr ns"
    and "find (\<lambda>x. startsWith x (file_id f)) ns = None"
  shows "try_catch (delete_payload env k f) (log_delete_error f) s = (None, s)"
  using assms by (cases s) (simp add: try_catch_def delete_payload_def)

lemma delete_payload_pads:
  "pads (fst (snd (delete_payload env pid f s))) = pads (fst s)"
  by (cases s)
     (auto simp: delete_payload_def unlink_def split: sum.splits option.splits if_splits)

lemma try_delete_pads:
  "pads (fst (snd (try_catch (delete_payload env pid f) (log_delete_error f) s))) = pads (fst s)"
  by (simp add: try_delete_unfold delete_payload_pads console_error_def split: option.splits)

lemma delete_loop_pads:
  "pads (fst (snd (for_of fs
      (\<lambda>file. try_catch (delete_payload env pid file) (log_delete_error file)) s))) = pads (fst s)"
  by (rule for_of_preserves [where P = "\<lambda>s'. pads (fst s') = pads (fst s)"])
     (simp_all add: try_delete_pads)

lemma delete_loop_completes:
  "fst (for_of fs
      (\<lambda>file. try_catch (delete_payload env pid file) (log_delete_error file)) s) = None"
  by (rule for_of_completes) (simp add: try_delete_completes)

subsection \<open>One pad\<close>

lemma cleanup_pad_result:
  assumes "map_of (pads (fst s)) k = Some p"
  shows "fst (cleanup_pad env k s) = None"
    and "pads (fst (snd (cleanup_pad env k s))) =
           AList.update k (p\<lparr>files := filter (\<lambda>f. expiresAt f \<ge> now_of env k) (files p)\<rparr>)
             (pads (fst s))"
proof -
  let ?loop = "for_of (filter (\<lambda>f. expiresAt f < now_of env k) (files p))
      (\<lambda>file. try_catch (delete_payload env k file) (log_delete_error file)) s"
  obtain st' c' where l: "?loop = (None, (st', c'))"
    using delete_loop_completes [of "filter (\<lambda>f. expiresAt f < now_of env k) (files p)" env k s]
    by (cases ?loop) auto
  have "pads st' = pads (fst s)"
    using delete_loop_pads [of "filter (\<lambda>f. expiresAt f < now_of env k) (files p)" env k s] l
    by simp
  with assms l show "fst (cleanup_pad env k s) = None"
    and "pads (fst (snd (cleanup_pad env k s))) =
           AList.update k (p\<lparr>files := filter (\<lambda>f. expiresAt f \<ge> now_of env k) (files p)\<rparr>)
             (pads (fst s))"
    by (simp_all add: cleanup_pad_def readPad_def Let_def writePad_def)
qed

subsection \<open>All pads\<close>

lemma update_existing_keys:
  "map_of al k = Some p \<Longrightarrow> map fst (AList.update k v al) = map fst al"
  by (induction al) (auto split: if_splits)

lemma cleanup_loop_pads:
  assumes "set ks \<subseteq> fst ` set (pads (fst s))"
  shows "fst (for_of ks (cleanup_pad env) s) = None \<and>
         pads (fst (snd (for_of ks (cleanup_pad env) s))) =
           fold (\<lambda>k al. case map_of al k of
                           None \<Rightarrow> al
                         | Some p \<Rightarrow> AList.update k
                             (p\<lparr>files := filter (\<lambda>f. expiresAt f \<ge> now_of env k) (files p)\<rparr>) al)
                ks (pads (fst s))"
  using assms
proof (induction ks arbitrary: s)
  case Nil
  then show ?case by simp
next
  case (Cons k ks)
  from Cons.prems have "k \<in> fst ` set (pads (fst s))" by simp
  then obtain p where p: "map_of (pads (fst s)) k = Some p"
    by (metis domD dom_map_of_conv_image_fst)
  note r = cleanup_pad_result [OF p, of env]
  obtain s' where b: "cleanup_pad env k s = (None, s')"
    using r(1) by (cases "cleanup_pad env k s") auto
  with r(2) have ps': "pads (fst s') =
      AList.update k (p\<lparr>files := filter (\<lambda>f. expiresAt f \<ge> now_of env k) (files p)\<rparr>)
        (pads (fst s))"
    by simp
  then have "map fst (pads (fst s')) = map fst (pads (fst s))"
    using update_existing_keys [OF p] by simp
  then have "fst ` set (pads (fst s')) = fst ` set (pads (fst s))"
    by (metis set_map)
  with Cons.prems have "set ks \<subseteq> fst ` set (pads (fst s'))" by simp
  from Cons.IH [OF this] b p ps' show ?case by simp
qed

lemma sweep_fold_keys:
  "map fst (fold (\<lambda>k al. case map_of al k of
                           None \<Rightarrow> al
                         | Some p \<Rightarrow> AList.update k (F k p) al) ks al) = map fst al"
proof (induction ks arbitrary: al)
  case Nil
  then show ?case by simp
next
  case (Cons k ks)
  then show ?case by (auto simp: update_existing_keys split: option.splits)
qed

lemma sweep_fold_map_of:
  assumes idem: "\<And>k p. F k (F k p) = F k p"
  shows "map_of (fold (\<lambda>k al. case map_of al k of
                           None \<Rightarrow> al
                         | Some p \<Rightarrow> AList.update k (F k p) al) ks al) k' =
         (if k' \<in> set ks then map_option (F k') (map_of al k') else map_of al k')"
proof (induction ks arbitrary: al)
  case Nil
  then show ?case by simp
next
  case (Cons k ks)
  show ?case
  proof (cases "map_of al k")
    case None
    with Cons [of al] show ?thesis by auto
  next
    case (Some p)
    with Cons [of "AList.update k (F k p) al"] idem show ?thesis
      by (auto simp: update_conv')
  qed
qed

lemma cleanup_body_completes: "fst (cleanup_body env st) = None"
  unfolding cleanup_body_def Let_def
  by (rule cleanup_loop_pads [THEN conjunct1]) (simp add: console_error_def)

lemma cleanupExpired_pads:
  "pads (cleanupExpired env st) =
     fold (\<lambda>k al. case map_of al k of
                     None \<Rightarrow> al
                   | Some p \<Rightarrow> AList.update k
                       (p\<lparr>files := filter (\<lambda>f. expiresAt f \<ge> now_of env k) (files p)\<rparr>) al)
          (map fst (pads st)) (pads st)"
proof -
  let ?st0 = "console_error RunningCleanup st"
  have sub: "set (map fst (pads ?st0)) \<subseteq> fst ` set (pads (fst (?st0, 0::nat)))" by simp
  note l = cleanup_loop_pads [OF sub, of env]
  obtain st' c where b: "cleanup_body env st = (None, (st', c))"
    using cleanup_body_completes [of env st] by (cases "cleanup_body env st") auto
  with l have "pads st' =
     fold (\<lambda>k al. case map_of al k of
                     None \<Rightarrow> al
                   | Some p \<Rightarrow> AList.update k
                       (p\<lparr>files := filter (\<lambda>f. expiresAt f \<ge> now_of env k) (files p)\<rparr>) al)
          (map fst (pads ?st0)) (pads ?st0)"
    by (simp add: cleanup_body_def Let_def)
  with b show ?thesis by (simp add: cleanupExpired_def console_error_def)
qed

lemma cleanupExpired_pad:
  assumes "map_of (pads st) k = Some p"
  shows "map_of (pads (cleanupExpired env st)) k =
           Some (p\<lparr>files := filter (\<lambda>f. expiresAt f \<ge> now_of env k) (files p)\<rparr>)"
proof -
  have k: "k \<in> set (map fst (pads st))"
    using assms by (metis domI dom_map_of_conv_image_fst set_map)
  show ?thesis
    unfolding cleanupExpired_pads
    by (subst sweep_fold_map_of) (use k assms in simp_all)
qed

lemma cleanupExpired_keys: "map fst (pads (cleanupExpired env st)) = map fst (pads st)"
  unfolding cleanupExpired_pads by (rule sweep_fold_keys)

subsection \<open>Payload directories during the sweep\<close>

lemma find_filter_first:
  "find Q xs = Some n \<Longrightarrow> P n \<Longrightarrow> find Q (filter P xs) = Some n"
  by (induction xs) (auto split: if_splits)

lemma find_Some_mem: "find Q xs = Some n \<Longrightarrow> n \<in> set xs"
  by (induction xs) (auto split: if_splits)

lemma delete_keys: "map fst (AList.delete n d) = filter (\<lambda>x. x \<noteq> n) (map fst d)"
  by (induction d) auto

lemma readdir_console_error [simp]: "readdir (console_error e st) k = readdir st k"
  by (simp add: readdir_def console_error_def)

lemma readdir_writePad [simp]: "readdir (writePad st pid p) k = readdir st k"
  by (simp add: readdir_def writePad_def)

text \<open>
  A step of the sweep only takes names out of a payload directory, keeps their order,
  and never takes out a name that the file system refuses to unlink.
\<close>

lemma delete_payload_shrinks:
  assumes "readdir (fst s) k = Inr ns"
  shows "\<exists>Q. readdir (fst (snd (delete_payload env k' x s))) k = Inr (filter Q ns) \<and>
             (\<forall>n. \<not> unlink_ok env k n \<longrightarrow> Q n)"
proof (cases "fst (snd (delete_payload env k' x s)) = fst s")
  case True
  with assms have "readdir (fst (snd (delete_payload env k' x s))) k = Inr (filter (\<lambda>x. True) ns)"
    by simp
  then show ?thesis by blast
next
  case False
  then obtain d m where d: "map_of (uploads (fst s)) k' = Some d"
    and ok: "unlink_ok env k' m"
    and u: "uploads (fst (snd (delete_payload env k' x s))) =
              AList.update k' (AList.delete m d) (uploads (fst s))"
    by (cases s)
       (auto simp: delete_payload_def unlink_def readdir_def
             split: sum.splits option.splits if_splits)
  show ?thesis
  proof (cases "k' = k")
    case True
    with assms d u have
      "readdir (fst (snd (delete_payload env k' x s))) k = Inr (filter (\<lambda>x. x \<noteq> m) ns)"
      by (auto simp: readdir_def update_conv' delete_keys)
    moreover from True ok have "\<forall>n. \<not> unlink_ok env k n \<longrightarrow> n \<noteq> m" by auto
    ultimately show ?thesis by blast
  next
    case False
    with assms u have
      "readdir (fst (snd (delete_payload env k' x s))) k = Inr (filter (\<lambda>x. True) ns)"
      by (auto simp: readdir_def update_conv')
    then show ?thesis by blast
  qed
qed

lemma try_delete_shrinks:
  assumes "readdir (fst s) k = Inr ns"
  shows "\<exists>Q. readdir (fst (snd (try_catch (delete_payload env k' x) (log_delete_error x) s))) k
              = Inr (filter Q ns) \<and> (\<forall>n. \<not> unlink_ok env k n \<longrightarrow> Q n)"
proof (cases "fst (delete_payload env k' x s)")
  case None
  with delete_payload_shrinks [OF assms, of env k' x] show ?thesis
    by (simp add: try_delete_unfold)
next
  case (Some e)
  with assms have
    "readdir (fst (snd (try_catch (delete_payload env k' x) (log_delete_error x) s))) k
       = Inr (filter (\<lambda>x. True) ns)"
    by (simp add: try_delete_unfold)
  then show ?thesis by blast
qed

lemma shrinks_trans:
  assumes "\<exists>P. readdir a k = Inr (filter P ns) \<and> (\<forall>n. \<not> unlink_ok env k n \<longrightarrow> P n)"
    and "\<And>ms. readdir a k = Inr ms \<Longrightarrow>
           \<exists>Q. readdir b k = Inr (filter Q ms) \<and> (\<forall>n. \<not> unlink_ok env k n \<longrightarrow> Q n)"
  shows "\<exists>P. readdir b k = Inr (filter P ns) \<and> (\<forall>n. \<not> unlink_ok env k n \<longrightarrow> P n)"
proof -
  from assms(1) obtain P where a: "readdir a k = Inr (filter P ns)"
    and p: "\<forall>n. \<not> unlink_ok env k n \<longrightarrow> P n" by blast
  from assms(2) [OF a] obtain Q where "readdir b k = Inr (filter Q (filter P ns))"
    and q: "\<forall>n. \<not> unlink_ok env k n \<longrightarrow> Q n" by blast
  then have "readdir b k = Inr (filter (\<lambda>x. P x \<and> Q x) ns)" by simp
  with p q show ?thesis by blast
qed

lemma delete_loop_shrinks:
  assumes "\<exists>P. readdir (fst s) k = Inr (filter P ns) \<and> (\<forall>n. \<not> unlink_ok env k n \<longrightarrow> P n)"
  shows "\<exists>P. readdir (fst (snd (for_of fs
      (\<lambda>file. try_catch (delete_payload env k' file) (log_delete_error file)) s))) k
           = Inr (filter P ns) \<and> (\<forall>n. \<not> unlink_ok env k n \<longrightarrow> P n)"
proof (rule for_of_preserves [where P = "\<lambda>s. \<exists>P. readdir (fst s) k = Inr (filter P ns) \<and>
                                            (\<forall>n. \<not> unlink_ok env k n \<longrightarrow> P n)"])
  fix x and s :: "server \<times> nat"
  assume "\<exists>P. readdir (fst s) k = Inr (filter P ns) \<and> (\<forall>n. \<not> unlink_ok env k n \<longrightarrow> P n)"
  then show "\<exists>P. readdir (fst (snd (try_catch (delete_payload env k' x) (log_delete_error x) s))) k
                 = Inr (filter P ns) \<and> (\<forall>n. \<not> unlink_ok env k n \<longrightarrow> P n)"
    by (rule shrinks_trans) (rule try_delete_shrinks)
qed (rule assms)

lemma cleanup_pad_shrinks:
  assumes "\<exists>P. readdir (fst s) k = Inr (filter P ns) \<and> (\<forall>n. \<not> unlink_ok env k n \<longrightarrow> P n)"
  shows "\<exists>P. readdir (fst (snd (cleanup_pad env k' s))) k = Inr (filter P ns) \<and>
             (\<forall>n. \<not> unlink_ok env k n \<longrightarrow> P n)"
proof (cases "readPad (fst s) k'")
  case (Inl e)
  with assms show ?thesis by (simp add: cleanup_pad_def)
next
  case (Inr p)
  let ?loop = "for_of (filter (\<lambda>f. expiresAt f < now_of env k') (files p))
      (\<lambda>file. try_catch (delete_payload env k' file) (log_delete_error file)) s"
  from delete_loop_shrinks [OF assms, of _ k']
  have l: "\<exists>P. readdir (fst (snd ?loop)) k = Inr (filter P ns) \<and>
               (\<forall>n. \<not> unlink_ok env k n \<longrightarrow> P n)" .
  obtain r st' c' where b: "?loop = (r, (st', c'))" by (cases ?loop) auto
  with l Inr show ?thesis
    by (cases r) (simp_all add: cleanup_pad_def Let_def)
qed

text \<open>Once a name is gone from a directory it stays gone.\<close>

lemma gone_stable:
  assumes "\<exists>ns. readdir a k = Inr ns \<and> n \<notin> set ns"
    and "\<And>ms. \<exists>P. readdir a k = Inr (filter P ms) \<and> (\<forall>n. \<not> unlink_ok env k n \<longrightarrow> P n) \<Longrightarrow>
           \<exists>P. readdir b k = Inr (filter P ms) \<and> (\<forall>n. \<not> unlink_ok env k n \<longrightarrow> P n)"
  shows "\<exists>ns. readdir b k = Inr ns \<and> n \<notin> set ns"
proof -
  from assms(1) obtain ns where a: "readdir a k = Inr ns" and n: "n \<notin> set ns" by blast
  from a have "readdir a k = Inr (filter (\<lambda>x. True) ns)" by simp
  then have "\<exists>P. readdir a k = Inr (filter P ns) \<and> (\<forall>n. \<not> unlink_ok env k n \<longrightarrow> P n)" by blast
  from assms(2) [OF this] obtain P where "readdir b k = Inr (filter P ns)" by blast
  with n show ?thesis by auto
qed

lemma try_delete_removes:
  assumes R: "\<exists>P. readdir (fst s) k = Inr (filter P ns0) \<and> (\<forall>n. \<not> unlink_ok env k n \<longrightarrow> P n)"
    and first: "find (\<lambda>x. startsWith x (file_id f)) ns0 = Some n"
    and ok: "unlink_ok env k n"
  shows "\<exists>ns. readdir (fst (snd (try_catch (delete_payload env k f) (log_delete_error f) s))) k
               = Inr ns \<and> n \<notin> set ns"
proof -
  from R obtain P where r: "readdir (fst s) k = Inr (filter P ns0)" by blast
  show ?thesis
  proof (cases "P n")
    case True
    have ff: "find (\<lambda>x. startsWith x (file_id f)) (filter P ns0) = Some n"
      using first True by (rule find_filter_first)
    from r obtain d where d: "map_of (uploads (fst s)) k = Some d"
      and nd: "map fst d = filter P ns0"
      by (auto simp: readdir_def split: option.splits)
    from ff have "n \<in> set (filter P ns0)"
      by (rule find_Some_mem)
    with nd have "n \<in> fst ` set d" by (metis set_map)
    then have mn: "map_of d n \<noteq> None" by (simp add: map_of_eq_None_iff)
    obtain st c where s: "s = (st, c)" by (cases s)
    from r d nd ff mn ok s have
      "delete_payload env k f s =
         (None, (st\<lparr>uploads := AList.update k (AList.delete n d) (uploads st)\<rparr>, c + 1))"
      by (auto simp: delete_payload_def unlink_def readdir_def)
    then have "readdir (fst (snd (try_catch (delete_payload env k f) (log_delete_error f) s))) k
                 = Inr (map fst (AList.delete n d))"
      by (simp add: try_delete_unfold readdir_def update_conv')
    then show ?thesis by (auto simp: delete_keys)
  next
    case False
    from try_delete_shrinks [OF r, of env k f] obtain Q where
      "readdir (fst (snd (try_catch (delete_payload env k f) (log_delete_error f) s))) k
         = Inr (filter Q (filter P ns0))" by blast
    with False show ?thesis by auto
  qed
qed

subsection \<open>Reaching one expired entry\<close>

text \<open>
  The pattern behind the statements on single entries: \<open>R\<close> holds when the sweep
  starts and is kept by every step; processing the entry \<open>f\<close> of pad \<open>k\<close> in a state
  with \<open>R\<close> establishes \<open>G\<close>; every step keeps \<open>G\<close>. Then \<open>G\<close> holds when the sweep
  ends, whatever happens to the other entries and pads.
\<close>

lemma cleanup_pad_preserves:
  assumes entry: "\<And>x s. P (fst s) \<Longrightarrow>
             P (fst (snd (try_catch (delete_payload env k x) (log_delete_error x) s)))"
    and wp: "\<And>st pd. P st \<Longrightarrow> P (writePad st k pd)"
    and "P (fst s)"
  shows "P (fst (snd (cleanup_pad env k s)))"
proof (cases "readPad (fst s) k")
  case (Inl e)
  with assms(3) show ?thesis by (simp add: cleanup_pad_def)
next
  case (Inr p)
  let ?loop = "for_of (filter (\<lambda>f. expiresAt f < now_of env k) (files p))
      (\<lambda>file. try_catch (delete_payload env k file) (log_delete_error file)) s"
  have l: "P (fst (snd ?loop))"
    using entry assms(3) by (intro for_of_preserves [where P = "\<lambda>s. P (fst s)"])
  obtain r st' c' where b: "?loop = (r, (st', c'))" by (cases ?loop) auto
  with l Inr wp show ?thesis
    by (cases r) (simp_all add: cleanup_pad_def Let_def)
qed

lemma cleanup_pad_reaches:
  assumes p: "map_of (pads (fst s)) k = Some p"
    and f: "f \<in> set (files p)" "expiresAt f < now_of env k"
    and R: "R (fst s)"
    and R_entry: "\<And>x s. R (fst s) \<Longrightarrow>
             R (fst (snd (try_catch (delete_payload env k x) (log_delete_error x) s)))"
    and hit: "\<And>s. R (fst s) \<Longrightarrow>
             G (fst (snd (try_catch (delete_payload env k f) (log_delete_error f) s)))"
    and G_entry: "\<And>x s. G (fst s) \<Longrightarrow>
             G (fst (snd (try_catch (delete_payload env k x) (log_delete_error x) s)))"
    and G_pads: "\<And>st pd. G st \<Longrightarrow> G (writePad st k pd)"
  shows "G (fst (snd (cleanup_pad env k s)))"
proof -
  let ?body = "\<lambda>file. try_catch (delete_payload env k file) (log_delete_error file)"
  let ?loop = "for_of (filter (\<lambda>f. expiresAt f < now_of env k) (files p)) ?body s"
  have l: "G (fst (snd ?loop))"
  proof (rule for_of_reaches [where f = f and R = "\<lambda>s. R (fst s)" and G = "\<lambda>s. G (fst s)"])
    show "f \<in> set (filter (\<lambda>f. expiresAt f < now_of env k) (files p))" using f by simp
    show "R (fst s)" by fact
  next
    fix x and s :: "server \<times> nat"
    assume "R (fst s)"
    then show "R (fst (snd (?body x s))) \<and> fst (?body x s) = None"
      using R_entry by (simp add: try_delete_completes)
  next
    fix s :: "server \<times> nat"
    assume "R (fst s)"
    then show "G (fst (snd (?body f s)))" by (rule hit)
  next
    fix x and s :: "server \<times> nat"
    assume "G (fst s)"
    then show "G (fst (snd (?body x s)))" by (rule G_entry)
  qed
  obtain r st' c' where b: "?loop = (r, (st', c'))" by (cases ?loop) auto
  with l p G_pads show ?thesis
    by (cases r) (simp_all add: cleanup_pad_def readPad_def Let_def)
qed

lemma cleanupExpired_reaches:
  assumes p: "map_of (pads st) k = Some p"
    and f: "f \<in> set (files p)" "expiresAt f < now_of env k"
    and R0: "R (console_error RunningCleanup st)"
    and R_entry: "\<And>k' x s. R (fst s) \<Longrightarrow>
             R (fst (snd (try_catch (delete_payload env k' x) (log_delete_error x) s)))"
    and R_pads: "\<And>st k' pd. R st \<Longrightarrow> R (writePad st k' pd)"
    and hit: "\<And>s. R (fst s) \<Longrightarrow>
             G (fst (snd (try_catch (delete_payload env k f) (log_delete_error f) s)))"
    and G_entry: "\<And>k' x s. G (fst s) \<Longrightarrow>
             G (fst (snd (try_catch (delete_payload env k' x) (log_delete_error x) s)))"
    and G_pads: "\<And>st k' pd. G st \<Longrightarrow> G (writePad st k' pd)"
    and G_log: "\<And>st e. G st \<Longrightarrow> G (console_error e st)"
  shows "G (cleanupExpired env st)"
proof -
  let ?st0 = "console_error RunningCleanup st"
  let ?ks = "map fst (pads ?st0)"
  let ?R = "\<lambda>s. R (fst s) \<and> map_of (pads (fst s)) k = Some p \<and>
                 map fst (pads (fst s)) = map fst (pads st)"
  have ks: "?ks = map fst (pads st)" by (simp add: console_error_def)
  have l: "G (fst (snd (for_of ?ks (cleanup_pad env) (?st0, 0))))"
  proof (rule for_of_reaches [where f = k and R = ?R and G = "\<lambda>s. G (fst s)"])
    show "k \<in> set ?ks"
      using p unfolding ks by (metis domI dom_map_of_conv_image_fst set_map)
    show "?R (?st0, 0)" using R0 p by (simp add: console_error_def)
  next
    fix x and s :: "server \<times> nat"
    assume x: "x \<in> set ?ks" and xk: "x \<noteq> k" and r: "?R s"
    from x r have "x \<in> fst ` set (pads (fst s))" unfolding ks by (metis set_map)
    then obtain px where px: "map_of (pads (fst s)) x = Some px"
      by (metis domD dom_map_of_conv_image_fst)
    note res = cleanup_pad_result [OF px, of env]
    from r have rr: "R (fst s)" by simp
    have "R (fst (snd (cleanup_pad env x s)))"
      using R_entry R_pads rr by (rule cleanup_pad_preserves [where P = R])
    moreover have "map_of (pads (fst (snd (cleanup_pad env x s)))) k = Some p"
      using res(2) xk r by (simp add: update_conv')
    moreover have "map fst (pads (fst (snd (cleanup_pad env x s)))) = map fst (pads st)"
      using res(2) r update_existing_keys [OF px] by simp
    ultimately show "?R (snd (cleanup_pad env x s)) \<and> fst (cleanup_pad env x s) = None"
      using res(1) by simp
  next
    fix s :: "server \<times> nat"
    assume r: "?R s"
    from r have rp: "map_of (pads (fst s)) k = Some p" and rr: "R (fst s)" by simp_all
    show "G (fst (snd (cleanup_pad env k s)))"
      using rp f rr R_entry hit G_entry G_pads
      by (rule cleanup_pad_reaches [where R = R and G = G])
  next
    fix x and s :: "server \<times> nat"
    assume "G (fst s)"
    with G_entry G_pads show "G (fst (snd (cleanup_pad env x s)))"
      by (rule cleanup_pad_preserves [where P = G])
  qed
  obtain r st' c where b: "cleanup_body env st = (r, (st', c))"
    by (cases "cleanup_body env st") auto
  with l have "G st'" by (simp add: cleanup_body_def Let_def)
  with b G_log show ?thesis
    by (cases r) (simp_all add: cleanupExpired_def)
qed

subsection \<open>What the sweep does for one expired entry\<close>

lemma try_delete_invariant:
  assumes "\<exists>P. readdir (fst s) k = Inr (filter P ns) \<and> (\<forall>n. \<not> unlink_ok env k n \<longrightarrow> P n)"
  shows "\<exists>P. readdir (fst (snd (try_catch (delete_payload env k' x) (log_delete_error x) s))) k
               = Inr (filter P ns) \<and> (\<forall>n. \<not> unlink_ok env k n \<longrightarrow> P n)"
  using assms by (rule shrinks_trans) (rule try_delete_shrinks)

lemma try_delete_gone:
  assumes "\<exists>ns. readdir (fst s) k = Inr ns \<and> n \<notin> set ns"
  shows "\<exists>ns. readdir (fst (snd (try_catch (delete_payload env k' x) (log_delete_error x) s))) k
               = Inr ns \<and> n \<notin> set ns"
  using assms by (rule gone_stable [where env = env]) (rule try_delete_invariant)

lemma sweep_removes_payload:
  assumes p: "map_of (pads st) k = Some p"
    and f: "f \<in> set (files p)" "expiresAt f < now_of env k"
    and dir: "map_of (uploads st) k = Some dir"
    and first: "find (\<lambda>x. startsWith x (file_id f)) (map fst dir) = Some n"
    and ok: "unlink_ok env k n"
  shows "\<exists>ns. readdir (cleanupExpired env st) k = Inr ns \<and> n \<notin> set ns"
proof (rule cleanupExpired_reaches
    [where R = "\<lambda>st. \<exists>P. readdir st k = Inr (filter P (map fst dir)) \<and>
                       (\<forall>n. \<not> unlink_ok env k n \<longrightarrow> P n)"
       and G = "\<lambda>st. \<exists>ns. readdir st k = Inr ns \<and> n \<notin> set ns", OF p f])
  have "readdir (console_error RunningCleanup st) k = Inr (filter (\<lambda>x. True) (map fst dir))"
    using dir by (simp add: readdir_def console_error_def)
  then show "\<exists>P. readdir (console_error RunningCleanup st) k = Inr (filter P (map fst dir)) \<and>
                 (\<forall>n. \<not> unlink_ok env k n \<longrightarrow> P n)"
    by blast
next
  fix k' x and s :: "server \<times> nat"
  assume "\<exists>P. readdir (fst s) k = Inr (filter P (map fst dir)) \<and>
              (\<forall>n. \<not> unlink_ok env k n \<longrightarrow> P n)"
  then show "\<exists>P. readdir (fst (snd (try_catch (delete_payload env k' x) (log_delete_error x) s))) k
                  = Inr (filter P (map fst dir)) \<and> (\<forall>n. \<not> unlink_ok env k n \<longrightarrow> P n)"
    by (rule try_delete_invariant)
next
  fix s :: "server \<times> nat"
  assume "\<exists>P. readdir (fst s) k = Inr (filter P (map fst dir)) \<and>
              (\<forall>n. \<not> unlink_ok env k n \<longrightarrow> P n)"
  then show "\<exists>ns. readdir (fst (snd (try_catch (delete_payload env k f) (log_delete_error f) s))) k
                  = Inr ns \<and> n \<notin> set ns"
    using first ok by (rule try_delete_removes)
next
  fix k' x and s :: "server \<times> nat"
  assume "\<exists>ns. readdir (fst s) k = Inr ns \<and> n \<notin> set ns"
  then show "\<exists>ns. readdir (fst (snd (try_catch (delete_payload env k' x) (log_delete_error x) s))) k
                  = Inr ns \<and> n \<notin> set ns"
    by (rule try_delete_gone)
qed simp_all

lemma try_delete_logs_grow:
  "e \<in> set (logs (fst s)) \<Longrightarrow>
     e \<in> set (logs (fst (snd (try_catch (delete_payload env k' x) (log_delete_error x) s))))"
  by (cases s)
     (auto simp: try_catch_def delete_payload_def log_delete_error_def unlink_def
                 console_error_def
           split: sum.splits option.splits if_splits)

lemma try_delete_nodir:
  "map_of (uploads (fst s)) k = None \<Longrightarrow>
     map_of (uploads (fst (snd (try_catch (delete_payload env k' x) (log_delete_error x) s)))) k
       = None"
  by (cases s)
     (auto simp: try_catch_def delete_payload_def log_delete_error_def unlink_def
                 console_error_def update_conv'
           split: sum.splits option.splits if_splits)

lemma sweep_logs_missing_directory:
  assumes p: "map_of (pads st) k = Some p"
    and f: "f \<in> set (files p)" "expiresAt f < now_of env k"
    and nodir: "map_of (uploads st) k = None"
  shows "ErrorDeletingFile (file_id f) \<in> set (logs (cleanupExpired env st))"
proof (rule cleanupExpired_reaches
    [where R = "\<lambda>st. map_of (uploads st) k = None"
       and G = "\<lambda>st. ErrorDeletingFile (file_id f) \<in> set (logs st)", OF p f])
  fix s :: "server \<times> nat"
  assume "map_of (uploads (fst s)) k = None"
  then show "ErrorDeletingFile (file_id f)
      \<in> set (logs (fst (snd (try_catch (delete_payload env k f) (log_delete_error f) s))))"
    by (cases s)
       (simp add: try_catch_def delete_payload_def log_delete_error_def readdir_def
          console_error_def)
qed (simp_all add: nodir console_error_def writePad_def try_delete_nodir try_delete_logs_grow)

lemma sweep_logs_unlink_failure:
  assumes p: "map_of (pads st) k = Some p"
    and f: "f \<in> set (files p)" "expiresAt f < now_of env k"
    and dir: "map_of (uploads st) k = Some dir"
    and first: "find (\<lambda>x. startsWith x (file_id f)) (map fst dir) = Some n"
    and refused: "\<not> unlink_ok env k n"
  shows "ErrorDeletingFile (file_id f) \<in> set (logs (cleanupExpired env st))"
proof (rule cleanupExpired_reaches
    [where R = "\<lambda>st. \<exists>P. readdir st k = Inr (filter P (map fst dir)) \<and>
                       (\<forall>n. \<not> unlink_ok env k n \<longrightarrow> P n)"
       and G = "\<lambda>st. ErrorDeletingFile (file_id f) \<in> set (logs st)", OF p f])
  have "readdir (console_error RunningCleanup st) k = Inr (filter (\<lambda>x. True) (map fst dir))"
    using dir by (simp add: readdir_def console_error_def)
  then show "\<exists>P. readdir (console_error RunningCleanup st) k = Inr (filter P (map fst dir)) \<and>
                 (\<forall>n. \<not> unlink_ok env k n \<longrightarrow> P n)"
    by blast
next
  fix k' x and s :: "server \<times> nat"
  assume "\<exists>P. readdir (fst s) k = Inr (filter P (map fst dir)) \<and>
              (\<forall>n. \<not> unlink_ok env k n \<longrightarrow> P n)"
  then show "\<exists>P. readdir (fst (snd (try_catch (delete_payload env k' x) (log_delete_error x) s))) k
                  = Inr (filter P (map fst dir)) \<and> (\<forall>n. \<not> unlink_ok env k n \<longrightarrow> P n)"
    by (rule try_delete_invariant)
next
  fix s :: "server \<times> nat"
  assume "\<exists>P. readdir (fst s) k = Inr (filter P (map fst dir)) \<and>
              (\<forall>n. \<not> unlink_ok env k n \<longrightarrow> P n)"
  then obtain P where r: "readdir (fst s) k = Inr (filter P (map fst dir))" and "P n"
    using refused by blast
  with first have ff: "find (\<lambda>x. startsWith x (file_id f)) (filter P (map fst dir)) = Some n"
    by (intro find_filter_first)
  from r obtain d where d: "map_of (uploads (fst s)) k = Some d"
    and nd: "map fst d = filter P (map fst dir)"
    by (auto simp: readdir_def split: option.splits)
  from ff have "n \<in> set (filter P (map fst dir))" by (rule find_Some_mem)
  with nd have "n \<in> fst ` set d" by (metis set_map)
  then have "map_of d n \<noteq> None" by (simp add: map_of_eq_None_iff)
  with d nd ff refused show "ErrorDeletingFile (file_id f)
      \<in> set (logs (fst (snd (try_catch (delete_payload env k f) (log_delete_error f) s))))"
    by (cases s)
       (auto simp: try_catch_def delete_payload_def log_delete_error_def readdir_def unlink_def
          console_error_def)
qed (simp_all add: try_delete_logs_grow, simp_all add: console_error_def writePad_def)


text \<open>
  Claim C7. For every pad in the store, the record that the sweep leaves is the record
  it read with the attachment list replaced by its live part, in the same order: an
  entry whose expiry stamp is before the clock read taken for that pad is gone from
  the list, an entry whose stamp is at or after it is kept, and nothing else in the
  record changes. A listing of the pad after the sweep returns exactly the live
  entries. For an expired entry whose payload is the first directory entry that
  starts with its id, and which the file system lets go, the payload is gone after
  the sweep.
\<close>

theorem sweep_keeps_live_attachments:
  assumes "map_of (pads st) k = Some p"
  shows "\<exists>p'. map_of (pads (cleanupExpired env st)) k = Some p'
          \<and> files p' = filter (\<lambda>f. expiresAt f \<ge> now_of env k) (files p)
          \<and> p' = p\<lparr>files := files p'\<rparr>
          \<and> (\<forall>f \<in> set (files p). expiresAt f < now_of env k \<longrightarrow> f \<notin> set (files p'))
          \<and> (\<forall>f \<in> set (files p). expiresAt f \<ge> now_of env k \<longrightarrow> f \<in> set (files p'))
          \<and> list_all (\<lambda>f. \<not> expiresAt f < now_of env k) (files p')
          \<and> (hashPassword L password = Inr (passwordHash p) \<longrightarrow>
               get_route L (cleanupExpired env st) k password =
                 Json 200 [(''content'', JStr (content p)), (''files'', JFiles (files p'))])
          \<and> (\<forall>f dir n. f \<in> set (files p) \<and> expiresAt f < now_of env k \<and>
                 map_of (uploads st) k = Some dir \<and>
                 find (\<lambda>x. startsWith x (file_id f)) (map fst dir) = Some n \<and>
                 unlink_ok env k n \<longrightarrow>
               (\<exists>ns. readdir (cleanupExpired env st) k = Inr ns \<and> n \<notin> set ns))"
proof -
  let ?p' = "p\<lparr>files := filter (\<lambda>f. expiresAt f \<ge> now_of env k) (files p)\<rparr>"
  have m: "map_of (pads (cleanupExpired env st)) k = Some ?p'"
    using assms by (rule cleanupExpired_pad)
  have g: "hashPassword L password = Inr (passwordHash p) \<longrightarrow>
             get_route L (cleanupExpired env st) k password =
               Json 200 [(''content'', JStr (content p)), (''files'', JFiles (files ?p'))]"
    using m by (simp add: get_route_def readPad_def)
  have r: "\<forall>f dir n. f \<in> set (files p) \<and> expiresAt f < now_of env k \<and>
                 map_of (uploads st) k = Some dir \<and>
                 find (\<lambda>x. startsWith x (file_id f)) (map fst dir) = Some n \<and>
                 unlink_ok env k n \<longrightarrow>
               (\<exists>ns. readdir (cleanupExpired env st) k = Inr ns \<and> n \<notin> set ns)"
    using sweep_removes_payload [OF assms] by blast
  from m g r show ?thesis
    by (intro exI [of _ ?p']) (simp add: list_all_iff)
qed

theorem sweep_keeps_live_attachments_witness:
  "map_of (pads demo_files_server) ''demo''
     = Some (demo_pad\<lparr>files := [demo_file_old, demo_file_live]\<rparr>)
   \<and> (\<exists>p'. map_of (pads (cleanupExpired demo_env demo_files_server)) ''demo'' = Some p'
          \<and> files p' = [demo_file_live]
          \<and> get_route demo_crypto (cleanupExpired demo_env demo_files_server) ''demo''
               (Some ''abcd'') =
               Json 200 [(''content'', JStr ''hello world''), (''files'', JFiles [demo_file_live])])
   \<and> (\<exists>ns. readdir (cleanupExpired demo_env demo_files_server) ''demo'' = Inr ns
          \<and> ''aa11.png'' \<notin> set ns)"
proof -
  have p: "map_of (pads demo_files_server) ''demo''
             = Some (demo_pad\<lparr>files := [demo_file_old, demo_file_live]\<rparr>)"
    by (simp add: demo_files_server_def)
  have d: "map_of (uploads demo_files_server) ''demo''
             = Some [(''aa11.png'', png_bytes), (''bb22.pdf'', pdf_bytes)]"
    by (simp add: demo_files_server_def)
  have n: "find (\<lambda>x. startsWith x (file_id demo_file_old))
             (map fst [(''aa11.png'', png_bytes), (''bb22.pdf'', pdf_bytes)]) = Some ''aa11.png''"
    by (simp add: startsWith_def demo_file_old_def)
  from sweep_keeps_live_attachments [OF p, of demo_env demo_crypto "Some ''abcd''"]
  obtain p' where "map_of (pads (cleanupExpired demo_env demo_files_server)) ''demo'' = Some p'"
    and "files p' = [demo_file_live]"
    and "get_route demo_crypto (cleanupExpired demo_env demo_files_server) ''demo''
               (Some ''abcd'') =
               Json 200 [(''content'', JStr ''hello world''), (''files'', JFiles (files p'))]"
    and "\<forall>f dir n. f \<in> set [demo_file_old, demo_file_live] \<and> expiresAt f < 90000000 \<and>
                 map_of (uploads demo_files_server) ''demo'' = Some dir \<and>
                 find (\<lambda>x. startsWith x (file_id f)) (map fst dir) = Some n \<and>
                 unlink_ok demo_env ''demo'' n \<longrightarrow>
               (\<exists>ns. readdir (cleanupExpired demo_env demo_files_server) ''demo'' = Inr ns
                      \<and> n \<notin> set ns)"
    by (auto simp: demo_env_def demo_file_old_def demo_file_live_def demo_pad_def
        hashPassword_def demo_crypto_def)
  moreover have "expiresAt demo_file_old < 90000000" "unlink_ok demo_env ''demo'' ''aa11.png''"
    by (simp_all add: demo_file_old_def demo_env_def)
  ultimately show ?thesis using p d n by auto
qed


lemma cleanupExpired_completes:
  "\<exists>c. last (logs (cleanupExpired env st)) = CleanupComplete c"
proof -
  obtain st' c where "cleanup_body env st = (None, (st', c))"
    using cleanup_body_completes [of env st] by (cases "cleanup_body env st") auto
  then show ?thesis by (simp add: cleanupExpired_def console_error_def)
qed

text \<open>
  Claim C8 names "the payload already missing" as a deletion failure that is logged.
  In the store below the pad \<open>gone\<close> has an expired entry \<open>ff66\<close>, its payload
  directory exists, and no payload starting with \<open>ff66\<close> is in it. The sweep finds no
  file name, skips the unlink, and logs nothing for the entry: the log holds the start
  line and the completion line only (the one file counted is \<open>aa11.png\<close> of the next
  pad, which the sweep goes on to).
\<close>

theorem sweep_skips_missing_payload_silently:
  "map_of (pads demo_missing_server) ''gone'' = Some (demo_pad\<lparr>files := [demo_file_gone]\<rparr>)
   \<and> expiresAt demo_file_gone < now_of demo_env ''gone''
   \<and> readdir demo_missing_server ''gone'' = Inr []
   \<and> logs (cleanupExpired demo_env demo_missing_server) = [RunningCleanup, CleanupComplete 1]
   \<and> ErrorDeletingFile ''ff66'' \<notin> set (logs (cleanupExpired demo_env demo_missing_server))
   \<and> map_of (pads (cleanupExpired demo_env demo_missing_server)) ''gone''
       = Some (demo_pad\<lparr>files := []\<rparr>)
   \<and> readdir (cleanupExpired demo_env demo_missing_server) ''demo'' = Inr [''bb22.pdf'']"
  by (simp add: cleanupExpired_def cleanup_body_def cleanup_pad_def try_catch_def
      delete_payload_def log_delete_error_def unlink_def readdir_def readPad_def writePad_def
      console_error_def startsWith_def demo_env_def demo_missing_server_def demo_pad_def
      demo_file_old_def demo_file_live_def demo_file_gone_def Let_def)

text \<open>
  Claim C8, amended. Whatever payload deletions fail, the body of the sweep never
  throws, so the sweep ends with its completion line and the pads it leaves do not
  depend on the payload directories or on which unlinks the file system refuses: every
  pad is processed. For every expired entry of every pad: when the pad has no payload
  directory the failure is logged; when the entry's payload cannot be unlinked the
  failure is logged; and when it can, the payload is removed, whatever happened to the
  entries and pads before it. A payload that is already missing from an existing
  directory is no failure: the step for that entry leaves the state, and so the log, as
  it was, and the loop goes on.
\<close>

theorem sweep_isolates_delete_failures:
  "fst (cleanup_body env st) = None
   \<and> (\<exists>c. last (logs (cleanupExpired env st)) = CleanupComplete c)
   \<and> (now_of env' = now_of env \<and> pads st' = pads st \<longrightarrow>
        pads (cleanupExpired env' st') = pads (cleanupExpired env st))
   \<and> (map_of (pads st) k = Some p \<and> f \<in> set (files p) \<and> expiresAt f < now_of env k \<longrightarrow>
        (map_of (uploads st) k = None \<longrightarrow>
           ErrorDeletingFile (file_id f) \<in> set (logs (cleanupExpired env st)))
      \<and> (\<forall>dir n. map_of (uploads st) k = Some dir \<and>
                  find (\<lambda>x. startsWith x (file_id f)) (map fst dir) = Some n \<longrightarrow>
            (if unlink_ok env k n
             then \<exists>ns. readdir (cleanupExpired env st) k = Inr ns \<and> n \<notin> set ns
             else ErrorDeletingFile (file_id f) \<in> set (logs (cleanupExpired env st)))))
   \<and> (readdir (fst s) k = Inr names \<and>
       find (\<lambda>x. startsWith x (file_id f)) names = None \<longrightarrow>
         try_catch (delete_payload env k f) (log_delete_error f) s = (None, s))"
proof (intro conjI impI allI)
  show "fst (cleanup_body env st) = None" by (rule cleanup_body_completes)
  show "\<exists>c. last (logs (cleanupExpired env st)) = CleanupComplete c"
    by (rule cleanupExpired_completes)
next
  assume "now_of env' = now_of env \<and> pads st' = pads st"
  then have h1: "now_of env' = now_of env" and h2: "pads st' = pads st" by simp_all
  show "pads (cleanupExpired env' st') = pads (cleanupExpired env st)"
    unfolding cleanupExpired_pads h1 h2 by (rule refl)
next
  assume "map_of (pads st) k = Some p \<and> f \<in> set (files p) \<and> expiresAt f < now_of env k"
    and "map_of (uploads st) k = None"
  then show "ErrorDeletingFile (file_id f) \<in> set (logs (cleanupExpired env st))"
    by (intro sweep_logs_missing_directory [where p = p]) simp_all
next
  fix dir n
  assume e: "map_of (pads st) k = Some p \<and> f \<in> set (files p) \<and> expiresAt f < now_of env k"
    and d: "map_of (uploads st) k = Some dir \<and>
            find (\<lambda>x. startsWith x (file_id f)) (map fst dir) = Some n"
  show "if unlink_ok env k n
        then \<exists>ns. readdir (cleanupExpired env st) k = Inr ns \<and> n \<notin> set ns
        else ErrorDeletingFile (file_id f) \<in> set (logs (cleanupExpired env st))"
  proof (cases "unlink_ok env k n")
    case True
    with e d sweep_removes_payload [of st k p f env dir n] show ?thesis by simp
  next
    case False
    with e d sweep_logs_unlink_failure [of st k p f env dir n] show ?thesis by simp
  qed
next
  assume "readdir (fst s) k = Inr names \<and>
          find (\<lambda>x. startsWith x (file_id f)) names = None"
  then show "try_catch (delete_payload env k f) (log_delete_error f) s = (None, s)"
    using try_delete_missing_file [of s k names f env] by simp
qed

theorem sweep_isolates_delete_failures_witness:
  "map_of (pads demo_files_server) ''lost'' = Some (demo_pad\<lparr>files := [demo_file_lost]\<rparr>)
   \<and> expiresAt demo_file_lost < now_of demo_env ''lost''
   \<and> map_of (uploads demo_files_server) ''lost'' = None
   \<and> ErrorDeletingFile ''cc33'' \<in> set (logs (cleanupExpired demo_env demo_files_server))
   \<and> map_of (pads demo_files_server) ''locked'' = Some (demo_pad\<lparr>files := [demo_file_locked]\<rparr>)
   \<and> map_of (uploads demo_files_server) ''locked'' = Some [(''ee55.png'', png_bytes)]
   \<and> \<not> unlink_ok demo_env ''locked'' ''ee55.png''
   \<and> ErrorDeletingFile ''ee55'' \<in> set (logs (cleanupExpired demo_env demo_files_server))
   \<and> map_of (pads demo_files_server) ''demo''
       = Some (demo_pad\<lparr>files := [demo_file_old, demo_file_live]\<rparr>)
   \<and> unlink_ok demo_env ''demo'' ''aa11.png''
   \<and> (\<exists>ns. readdir (cleanupExpired demo_env demo_files_server) ''demo'' = Inr ns
          \<and> ''aa11.png'' \<notin> set ns)
   \<and> (\<exists>c. last (logs (cleanupExpired demo_env demo_files_server)) = CleanupComplete c)
   \<and> readdir (fst (demo_missing_server, 0 :: nat)) ''gone'' = Inr []
   \<and> find (\<lambda>x. startsWith x (file_id demo_file_gone)) [] = None
   \<and> try_catch (delete_payload demo_env ''gone'' demo_file_gone)
        (log_delete_error demo_file_gone) (demo_missing_server, 0)
       = (None, (demo_missing_server, 0))"
  using sweep_isolates_delete_failures
      [of demo_env demo_files_server demo_env demo_files_server
          "''lost''" "demo_pad\<lparr>files := [demo_file_lost]\<rparr>" demo_file_lost
          "(demo_files_server, 0)" "[]"]
    sweep_isolates_delete_failures
      [of demo_env demo_files_server demo_env demo_files_server
          "''locked''" "demo_pad\<lparr>files := [demo_file_locked]\<rparr>" demo_file_locked
          "(demo_files_server, 0)" "[]",
       THEN conjunct2, THEN conjunct2, THEN conjunct2, THEN conjunct1, THEN mp, THEN conjunct2,
       THEN spec, THEN spec, of "[(''ee55.png'', png_bytes)]" "''ee55.png''"]
    sweep_isolates_delete_failures
      [of demo_env demo_files_server demo_env demo_files_server
          "''demo''" "demo_pad\<lparr>files := [demo_file_old, demo_file_live]\<rparr>" demo_file_old
          "(demo_files_server, 0)" "[]",
       THEN conjunct2, THEN conjunct2, THEN conjunct2, THEN conjunct1, THEN mp, THEN conjunct2,
       THEN spec, THEN spec, of "[(''aa11.png'', png_bytes), (''bb22.pdf'', pdf_bytes)]"
          "''aa11.png''"]
    sweep_isolates_delete_failures
      [of demo_env demo_files_server demo_env demo_files_server
          "''gone''" "demo_pad\<lparr>files := [demo_file_gone]\<rparr>" demo_file_gone
          "(demo_missing_server, 0)" "[]",
       THEN conjunct2, THEN conjunct2, THEN conjunct2, THEN conjunct2]
  by (simp add: demo_files_server_def demo_missing_server_def demo_env_def demo_file_lost_def
      demo_file_locked_def demo_file_old_def demo_pad_def startsWith_def readdir_def)


text \<open>A run of the sweep on the store with a missing directory and a locked payload.\<close>

lemma demo_sweep:
  "cleanupExpired demo_env demo_files_server =
     \<lparr>pads = [(''lost'', demo_pad\<lparr>files := []\<rparr>),
              (''locked'', demo_pad\<lparr>files := []\<rparr>),
              (''demo'', demo_pad\<lparr>files := [demo_file_live]\<rparr>)],
      uploads = [(''locked'', [(''ee55.png'', png_bytes)]),
                 (''demo'', [(''bb22.pdf'', pdf_bytes)])],
      logs = [RunningCleanup, ErrorDeletingFile ''cc33'', ErrorDeletingFile ''ee55'',
              CleanupComplete 1]\<rparr>"
  by (simp add: cleanupExpired_def cleanup_body_def cleanup_pad_def try_catch_def
      delete_payload_def log_delete_error_def unlink_def readdir_def readPad_def writePad_def
      console_error_def startsWith_def demo_env_def demo_files_server_def demo_pad_def
      demo_file_old_def demo_file_live_def demo_file_lost_def demo_file_locked_def Let_def)


end
